theory Spec2Isabelle
  imports Main "HOL-Library.Word"
begin

section \<open>The operating system as the writer sees it\<close>

text \<open>
  The writer of \<^verbatim>\<open>writer.go\<close> does nothing but call the \<^verbatim>\<open>os\<close> package, so the
  model starts with the part of the file system those calls touch: directory entries
  (\<open>names\<close>) that map a path to an inode, the bytes of every inode, and a table of open
  \<^verbatim>\<open>*os.File\<close> handles. A handle refers to an inode, not to a path, as on Unix.

  Every call that reaches the kernel first takes the next entry of \<open>faults\<close>: \<open>Some e\<close>
  makes the call fail with \<open>e\<close> and no effect, \<open>None\<close> (or an exhausted list) lets
  the call behave as the file system dictates. A theorem that quantifies over \<open>faults\<close>
  thus speaks about every outcome the file system can give. Every call is also appended
  to \<open>trace\<close>, in program order.
\<close>

type_synonym byte = "8 word"

datatype error =
    ErrClosed             \<comment> \<open>the package's own \<^verbatim>\<open>ErrClosed\<close>\<close>
  | ErrInvalidArgument    \<comment> \<open>the package's own \<^verbatim>\<open>ErrInvalidArgument\<close>\<close>
  | ErrInvalid            \<comment> \<open>\<^verbatim>\<open>os.ErrInvalid\<close>: a method called on a nil \<^verbatim>\<open>*os.File\<close>\<close>
  | ErrFileClosed         \<comment> \<open>\<^verbatim>\<open>os.ErrClosed\<close>: file already closed\<close>
  | ENOENT
  | EBADF
  | Errno nat             \<comment> \<open>any other error of the operating system\<close>

datatype open_mode = O_RDONLY | O_RDWR_CREATE_APPEND

record file_handle =
  hino :: nat
  hmode :: open_mode
  hclosed :: bool

datatype call =
    CallClose "nat option"
  | CallRename string string
  | CallSleep nat
  | CallOpen string
  | CallOpenFile string
  | CallWrite "nat option" "byte list"
  | CallSeek "nat option"
  | CallCopy "nat option"
  | CallRemove string
  | CallMkdirAll string
  | CallLog error

record world =
  names :: "string \<rightharpoonup> nat"
  inodes :: "nat \<Rightarrow> byte list"
  next_ino :: nat
  handles :: "nat \<rightharpoonup> file_handle"
  next_handle :: nat
  faults :: "error option list"
  trace :: "call list"

definition called :: "call \<Rightarrow> world \<Rightarrow> world" where
  "called c os = os\<lparr>trace := trace os @ [c]\<rparr>"

definition next_fault :: "world \<Rightarrow> error option \<times> world" where
  "next_fault os =
     (case faults os of
        [] \<Rightarrow> (None, os)
      | f # fs \<Rightarrow> (f, os\<lparr>faults := fs\<rparr>))"

text \<open>\<^verbatim>\<open>os.Rename(old, new)\<close>: the entry \<open>old\<close> is moved to \<open>new\<close>, replacing it.\<close>

definition os_Rename :: "string \<Rightarrow> string \<Rightarrow> world \<Rightarrow> error option \<times> world" where
  "os_Rename old new os =
     (let (f, os1) = next_fault (called (CallRename old new) os) in
      case f of
        Some e \<Rightarrow> (Some e, os1)
      | None \<Rightarrow>
          (case names os1 old of
             None \<Rightarrow> (Some ENOENT, os1)
           | Some i \<Rightarrow> (None, os1\<lparr>names := (names os1)(old := None, new \<mapsto> i)\<rparr>)))"

text \<open>\<^verbatim>\<open>os.Remove(path)\<close>.\<close>

definition os_Remove :: "string \<Rightarrow> world \<Rightarrow> error option \<times> world" where
  "os_Remove path os =
     (let (f, os1) = next_fault (called (CallRemove path) os) in
      case f of
        Some e \<Rightarrow> (Some e, os1)
      | None \<Rightarrow>
          (case names os1 path of
             None \<Rightarrow> (Some ENOENT, os1)
           | Some i \<Rightarrow> (None, os1\<lparr>names := (names os1)(path := None)\<rparr>)))"

definition new_handle :: "nat \<Rightarrow> open_mode \<Rightarrow> world \<Rightarrow> nat option \<times> error option \<times> world" where
  "new_handle i m os =
     (Some (next_handle os), None,
      os\<lparr>handles := (handles os)(next_handle os \<mapsto> \<lparr>hino = i, hmode = m, hclosed = False\<rparr>),
         next_handle := Suc (next_handle os)\<rparr>)"

text \<open>
  Modelled from the spec: the constants \<^verbatim>\<open>DefaultFileFlag\<close> and \<^verbatim>\<open>DefaultFileMode\<close> are
  declared outside \<^verbatim>\<open>writer.go\<close>; the spec says the file is opened "with
  creation/append semantics", and the writer writes through the handle, so
  \<^verbatim>\<open>os.OpenFile(path, DefaultFileFlag, DefaultFileMode)\<close> creates the file when it is
  absent and gives a handle whose writes go to the end of the file.
\<close>

definition os_OpenFile :: "string \<Rightarrow> world \<Rightarrow> nat option \<times> error option \<times> world" where
  "os_OpenFile path os =
     (let (f, os1) = next_fault (called (CallOpenFile path) os) in
      case f of
        Some e \<Rightarrow> (None, Some e, os1)
      | None \<Rightarrow>
          (case names os1 path of
             Some i \<Rightarrow> new_handle i O_RDWR_CREATE_APPEND os1
           | None \<Rightarrow>
               new_handle (next_ino os1) O_RDWR_CREATE_APPEND
                 (os1\<lparr>names := (names os1)(path \<mapsto> next_ino os1),
                      inodes := (inodes os1)(next_ino os1 := []),
                      next_ino := Suc (next_ino os1)\<rparr>)))"

text \<open>\<^verbatim>\<open>os.Open(path)\<close> opens for reading only (\<^verbatim>\<open>O_RDONLY\<close>) and never creates.\<close>

definition os_Open :: "string \<Rightarrow> world \<Rightarrow> nat option \<times> error option \<times> world" where
  "os_Open path os =
     (let (f, os1) = next_fault (called (CallOpen path) os) in
      case f of
        Some e \<Rightarrow> (None, Some e, os1)
      | None \<Rightarrow>
          (case names os1 path of
             None \<Rightarrow> (None, Some ENOENT, os1)
           | Some i \<Rightarrow> new_handle i O_RDONLY os1))"

text \<open>
  The methods of \<^verbatim>\<open>*os.File\<close>. On a nil receiver they return \<^verbatim>\<open>os.ErrInvalid\<close>, on a
  handle that is already closed \<^verbatim>\<open>os.ErrClosed\<close>; neither reaches the kernel. A handle
  that is not in the table cannot arise from the calls above and is treated as nil.
\<close>

definition lookup_handle :: "nat option \<Rightarrow> world \<Rightarrow> (nat \<times> file_handle) option" where
  "lookup_handle h os =
     (case h of
        None \<Rightarrow> None
      | Some k \<Rightarrow> (case handles os k of None \<Rightarrow> None | Some fh \<Rightarrow> Some (k, fh)))"

definition file_Close :: "nat option \<Rightarrow> world \<Rightarrow> error option \<times> world" where
  "file_Close h os =
     (let os0 = called (CallClose h) os in
      case lookup_handle h os0 of
        None \<Rightarrow> (Some ErrInvalid, os0)
      | Some (k, fh) \<Rightarrow>
          if hclosed fh then (Some ErrFileClosed, os0)
          else
            (let (f, os1) = next_fault os0 in
             (f, os1\<lparr>handles := (handles os1)(k \<mapsto> fh\<lparr>hclosed := True\<rparr>)\<rparr>)))"

text \<open>
  \<^verbatim>\<open>file.Write(b)\<close> returns the number of bytes written and an error. A write through
  a read-only handle fails with \<^verbatim>\<open>EBADF\<close>. A failed write is modelled as writing
  nothing.
\<close>

definition file_Write :: "nat option \<Rightarrow> byte list \<Rightarrow> world \<Rightarrow> (int \<times> error option) \<times> world" where
  "file_Write h b os =
     (let os0 = called (CallWrite h b) os in
      case lookup_handle h os0 of
        None \<Rightarrow> ((0, Some ErrInvalid), os0)
      | Some (k, fh) \<Rightarrow>
          if hclosed fh then ((0, Some ErrFileClosed), os0)
          else
            (let (f, os1) = next_fault os0 in
             case f of
               Some e \<Rightarrow> ((0, Some e), os1)
             | None \<Rightarrow>
                 if hmode fh = O_RDONLY then ((0, Some EBADF), os1)
                 else ((int (length b), None),
                       os1\<lparr>inodes := (inodes os1)(hino fh := inodes os1 (hino fh) @ b)\<rparr>)))"

text \<open>\<^verbatim>\<open>of.Seek(0, 0)\<close>; the model's reads always start at the beginning.\<close>

definition file_Seek :: "nat option \<Rightarrow> world \<Rightarrow> error option \<times> world" where
  "file_Seek h os =
     (let os0 = called (CallSeek h) os in
      case lookup_handle h os0 of
        None \<Rightarrow> (Some ErrInvalid, os0)
      | Some (k, fh) \<Rightarrow>
          if hclosed fh then (Some ErrFileClosed, os0)
          else next_fault os0)"

text \<open>\<^verbatim>\<open>time.Sleep\<close> and the two loggers only leave a mark in the trace.\<close>

definition time_Sleep :: "nat \<Rightarrow> world \<Rightarrow> world" where
  "time_Sleep ms os = called (CallSleep ms) os"

definition log_Println :: "error \<Rightarrow> world \<Rightarrow> world" where
  "log_Println e os = called (CallLog e) os"


text \<open>
  \<^verbatim>\<open>io.Copy(gw, of)\<close> reads the source handle to its end and hands the bytes to the
  gzip writer; the result is the bytes the gzip writer has received. The compressed
  stream reaches the target file when the gzip writer is closed.
\<close>

definition io_Copy :: "nat option \<Rightarrow> world \<Rightarrow> (byte list \<times> error option) \<times> world" where
  "io_Copy src os =
     (let os0 = called (CallCopy src) os in
      case lookup_handle src os0 of
        None \<Rightarrow> (([], Some ErrInvalid), os0)
      | Some (k, fh) \<Rightarrow>
          if hclosed fh then (([], Some ErrFileClosed), os0)
          else
            (let (f, os1) = next_fault os0 in
             case f of
               Some e \<Rightarrow> (([], Some e), os1)
             | None \<Rightarrow> ((inodes os1 (hino fh), None), os1)))"

section \<open>The base writer\<close>

text \<open>
  Of \<^verbatim>\<open>Config\<close> (declared outside \<^verbatim>\<open>writer.go\<close>) the fields that \<^verbatim>\<open>writer.go\<close> reads.
  Go's \<^verbatim>\<open>int\<close> is 64 bits wide; the one product the code forms wraps around.
\<close>

record Config =
  LogPath :: string
  FileName :: string
  Compress :: bool
  MaxRemain :: int
  WriterMode :: string
  BufferWriterThershould :: int

definition int64_wrap :: "int \<Rightarrow> int" where
  "int64_wrap x = (x + 2 ^ 63) mod 2 ^ 64 - 2 ^ 63"

text \<open>
  A buffered channel is its queue and its capacity; a nil channel is \<open>None\<close>. A send in
  a \<^verbatim>\<open>select\<close> with a \<^verbatim>\<open>default\<close> goes through when the queue has room. The \<^verbatim>\<open>fire\<close>
  channel of the manager is the list of file names it has sent and the writer has not
  yet received.
\<close>

record 'a chan =
  cbuf :: "'a list"
  ccap :: nat

record Writer =
  wfile :: "nat option"   \<comment> \<open>the field \<^verbatim>\<open>file\<close>\<close>
  absPath :: string
  fire :: "string list"
  cf :: Config
  rollingfilech :: "string chan option"

text \<open>
  \<^verbatim>\<open>DoRemove\<close>: a \<^verbatim>\<open>select\<close> with one receive and no \<^verbatim>\<open>default\<close>, so it waits for
  an entry; with no other task to send one, an empty or nil channel means it never
  returns (\<open>None\<close>).
\<close>

definition DoRemove :: "'a Writer_scheme \<Rightarrow> world \<Rightarrow> ('a Writer_scheme \<times> world) option" where
  "DoRemove w os =
     (case rollingfilech w of
        None \<Rightarrow> None
      | Some ch \<Rightarrow>
          (case cbuf ch of
             [] \<Rightarrow> None
           | f # rest \<Rightarrow>
               (let (err, os1) = os_Remove f os;
                    os2 = (case err of None \<Rightarrow> os1 | Some e \<Rightarrow> log_Println e os1)
                in Some (w\<lparr>rollingfilech := Some (ch\<lparr>cbuf := rest\<rparr>)\<rparr>, os2))))"

text \<open>
  \<^verbatim>\<open>CompressFile\<close>. The two deferred calls run at every return after their \<^verbatim>\<open>defer\<close>
  statement, last registered first: \<^verbatim>\<open>gw.Close()\<close> writes the gzip stream of the bytes
  received so far to \<^verbatim>\<open>cmpfile\<close>, then \<^verbatim>\<open>cmpfile.Close()\<close>; both results are dropped.
  The gzip encoding itself is a parameter \<open>gz\<close>.
\<close>

definition CompressFile_deferred ::
    "(byte list \<Rightarrow> byte list) \<Rightarrow> nat option \<Rightarrow> byte list \<Rightarrow> world \<Rightarrow> world" where
  "CompressFile_deferred gz cmpfile received os =
     (let (_, os1) = file_Write cmpfile (gz received) os;
          (_, os2) = file_Close cmpfile os1
      in os2)"

definition CompressFile ::
    "(byte list \<Rightarrow> byte list) \<Rightarrow> string \<Rightarrow> world \<Rightarrow> error option \<times> world" where
  "CompressFile gz cmpname os =
     (let (cmpfile, err, os1) = os_OpenFile cmpname os in
      if err \<noteq> None then (err, snd (file_Close cmpfile os1))
      else
        (let (src, err, os2) = os_Open (cmpname @ ''.tmp'') os1 in
         if err \<noteq> None then (err, CompressFile_deferred gz cmpfile [] os2)
         else
           (let (err, os3) = file_Seek src os2 in
            if err \<noteq> None then (err, CompressFile_deferred gz cmpfile [] os3)
            else
              (let ((received, err), os4) = io_Copy src os3 in
               if err \<noteq> None then
                 (let (_, os5) = file_Close cmpfile os4;
                      (errR, os6) = os_Remove cmpname os5
                  in if errR \<noteq> None then (errR, CompressFile_deferred gz cmpfile received os6)
                     else (err, CompressFile_deferred gz cmpfile received os6))
               else
                 (let (_, os5) = file_Close src os4;
                      (r, os6) = os_Remove (cmpname @ ''.tmp'') os5
                  in (r, CompressFile_deferred gz cmpfile received os6))))))"

text \<open>
  The retention loop of the task that \<^verbatim>\<open>Reopen\<close> starts (label \<^verbatim>\<open>retry\<close>): try to
  send the name; when the channel has no room, \<^verbatim>\<open>DoRemove\<close> and try again.
\<close>

function retry :: "string \<Rightarrow> 'a Writer_scheme \<Rightarrow> world \<Rightarrow> ('a Writer_scheme \<times> world) option" where
  "retry target w os =
     (case rollingfilech w of
        None \<Rightarrow> (case DoRemove w os of None \<Rightarrow> None | Some (w1, os1) \<Rightarrow> retry target w1 os1)
      | Some ch \<Rightarrow>
          if length (cbuf ch) < ccap ch
          then Some (w\<lparr>rollingfilech := Some (ch\<lparr>cbuf := cbuf ch @ [target]\<rparr>)\<rparr>, os)
          else (case DoRemove w os of None \<Rightarrow> None | Some (w1, os1) \<Rightarrow> retry target w1 os1))"
  by pat_completeness auto
termination
proof (relation "measure (\<lambda>(target, w, os). case rollingfilech w of None \<Rightarrow> 0 | Some ch \<Rightarrow> length (cbuf ch))")
  show "wf (measure (\<lambda>(target, w, os). case rollingfilech w of None \<Rightarrow> 0 | Some ch \<Rightarrow> length (cbuf ch)))"
    by simp
next
  fix target :: string and w :: "'a Writer_scheme" and os x2 w1 os1
  assume "rollingfilech w = None" "DoRemove w os = Some x2"
  then show "((target, w1, os1), target, w, os)
       \<in> measure (\<lambda>(target, w, os). case rollingfilech w of None \<Rightarrow> 0 | Some ch \<Rightarrow> length (cbuf ch))"
    by (simp add: DoRemove_def)
next
  fix target :: string and w :: "'a Writer_scheme" and os ch x2 w1 os1
  assume "rollingfilech w = Some ch" "DoRemove w os = Some x2" "(w1, os1) = x2"
  then show "((target, w1, os1), target, w, os)
       \<in> measure (\<lambda>(target, w, os). case rollingfilech w of None \<Rightarrow> 0 | Some ch \<Rightarrow> length (cbuf ch))"
    by (auto simp: DoRemove_def split: list.splits prod.splits)
qed

declare retry.simps [simp del]

text \<open>
  The task itself (the \<^verbatim>\<open>go func()\<close> of \<^verbatim>\<open>Reopen\<close>), run to its end; \<open>None\<close> when it
  never ends.
\<close>

definition Reopen_go ::
    "(byte list \<Rightarrow> byte list) \<Rightarrow> string \<Rightarrow> 'a Writer_scheme \<Rightarrow> world \<Rightarrow> ('a Writer_scheme \<times> world) option" where
  "Reopen_go gz target w os =
     (let (err, os1) = (if Compress (cf w) then CompressFile gz target os else (None, os)) in
      case err of
        Some e \<Rightarrow> Some (w, log_Println e os1)
      | None \<Rightarrow> if MaxRemain (cf w) > 0 then retry target w os1 else Some (w, os1))"

text \<open>
  \<^verbatim>\<open>Reopen\<close>. The result is the returned error, the writer, the world, and the name
  handed to the background task when one is started.
\<close>

definition Reopen_open ::
    "string \<Rightarrow> 'a Writer_scheme \<Rightarrow> world \<Rightarrow> error option \<times> 'a Writer_scheme \<times> world \<times> string option" where
  "Reopen_open target w os =
     (let (newfile, err, os1) = os_OpenFile (absPath w) os in
      case err of
        Some e \<Rightarrow> (None, w, log_Println e os1, None)
      | None \<Rightarrow> (None, w\<lparr>wfile := newfile\<rparr>, os1, Some target))"

definition Reopen ::
    "string \<Rightarrow> 'a Writer_scheme \<Rightarrow> world \<Rightarrow> error option \<times> 'a Writer_scheme \<times> world \<times> string option" where
  "Reopen target w os =
     (let rname = (if Compress (cf w) then target @ ''.tmp'' else target);
          (_, os1) = file_Close (wfile w) os;
          (err1, os2) = os_Rename (absPath w) rname os1
      in if err1 \<noteq> None then
           (let (err2, os3) = os_Rename (absPath w) rname os2 in
            if err2 \<noteq> None then
              (let os4 = time_Sleep 10 os3;
                   (err3, os5) = os_Rename (absPath w) rname os4
               in if err3 \<noteq> None then
                    (let (f, _, os6) = os_Open (absPath w) os5
                     in (None, w\<lparr>wfile := f\<rparr>, os6, None))
                  else Reopen_open target w os5)
            else Reopen_open target w os3)
         else Reopen_open target w os2)"


text \<open>
  The rotation check that opens \<^verbatim>\<open>Writer.Write\<close>, \<^verbatim>\<open>LockedWriter.Write\<close> and
  \<^verbatim>\<open>BufferWriter.Write\<close>: a \<^verbatim>\<open>select\<close> that receives a file name from \<^verbatim>\<open>fire\<close> and calls
  \<^verbatim>\<open>Reopen\<close>, or does nothing when no name is waiting. The first component is the
  error of \<^verbatim>\<open>Reopen\<close>, which each caller tests.
\<close>

definition select_fire ::
    "'a Writer_scheme \<Rightarrow> world \<Rightarrow> error option \<times> 'a Writer_scheme \<times> world \<times> string option" where
  "select_fire w os =
     (case fire w of
        [] \<Rightarrow> (None, w, os, None)
      | filename # rest \<Rightarrow> Reopen filename (w\<lparr>fire := rest\<rparr>) os)"

definition Writer_Write ::
    "byte list \<Rightarrow> 'a Writer_scheme \<Rightarrow> world
       \<Rightarrow> (int \<times> error option) \<times> 'a Writer_scheme \<times> world \<times> string option" where
  "Writer_Write b w os =
     (let (err, w1, os1, sp) = select_fire w os in
      case err of
        Some e \<Rightarrow> ((0, Some e), w1, os1, sp)
      | None \<Rightarrow> (let (r, os2) = file_Write (wfile w1) b os1 in (r, w1, os2, sp)))"

definition Writer_Close :: "'a Writer_scheme \<Rightarrow> world \<Rightarrow> error option \<times> world" where
  "Writer_Close w os = file_Close (wfile w) os"

section \<open>The locked writer\<close>

text \<open>
  A call either returns, or waits for something only another task can provide
  (\<open>Blocks\<close>), or panics.
\<close>

datatype 'a outcome = Returns 'a | Blocks | Panics

record LockedWriter = Writer +
  mu :: bool    \<comment> \<open>the embedded \<^verbatim>\<open>sync.Mutex\<close>: held or not\<close>

definition LockedWriter_Write ::
    "byte list \<Rightarrow> LockedWriter \<Rightarrow> world
       \<Rightarrow> ((int \<times> error option) \<times> LockedWriter \<times> world \<times> string option) outcome" where
  "LockedWriter_Write b w os =
     (if mu w then Blocks
      else
        (let (err, w1, os1, sp) = select_fire (w\<lparr>mu := True\<rparr>) os in
         case err of
           Some e \<Rightarrow> Returns ((0, Some e), w1\<lparr>mu := False\<rparr>, os1, sp)
         | None \<Rightarrow>
             (let (r, os2) = file_Write (wfile w1) b os1
              in Returns (r, w1\<lparr>mu := False\<rparr>, os2, sp))))"

definition LockedWriter_Close :: "LockedWriter \<Rightarrow> world \<Rightarrow> (error option \<times> world) outcome" where
  "LockedWriter_Close w os = (if mu w then Blocks else Returns (file_Close (wfile w) os))"

section \<open>The asynchronous writer\<close>

text \<open>
  The chunks in the queue and in the package's buffer pool are byte sequences (their
  capacity plays no role). \<^verbatim>\<open>Get\<close> takes a pooled buffer when there is one and makes
  one of \<^verbatim>\<open>BufferSize\<close> bytes otherwise; \<^verbatim>\<open>BufferSize\<close> is declared outside
  \<^verbatim>\<open>writer.go\<close> and is a parameter here.

  The task \<^verbatim>\<open>writer()\<close> runs beside the callers. Its position is part of the state:
  at the \<^verbatim>\<open>select\<close>, at the send \<^verbatim>\<open>w.errChan <- err\<close> holding chunk \<open>b\<close>, at the
  \<^verbatim>\<open>Put(b)\<close> after it, or gone. \<^verbatim>\<open>errChan\<close> has no buffer: a send completes when a
  receiver takes the value. \<open>pollers\<close> counts the receivers outside the writer that
  are waiting on \<^verbatim>\<open>errChan\<close> (obtained through \<^verbatim>\<open>AsynchronousWriterErrorChan\<close>).
\<close>

datatype drain_pc = AtSelect | AtSend error "byte list" | AtPut "byte list" | Exited

record AsynchronousWriter = Writer +
  ctx_closed :: bool         \<comment> \<open>\<^verbatim>\<open>ctx\<close> is only ever closed\<close>
  queue :: "byte list chan"
  closed :: "32 word"
  drain :: drain_pc
  pollers :: nat
  pool :: "byte list list"   \<comment> \<open>\<^verbatim>\<open>_asyncBufferPool\<close>\<close>

definition pool_Get :: "nat \<Rightarrow> byte list list \<Rightarrow> byte list \<times> byte list list" where
  "pool_Get BufferSize pl =
     (case pl of
        [] \<Rightarrow> (replicate BufferSize 0, [])
      | s # rest \<Rightarrow> (s, rest))"

text \<open>
  The loop \<^verbatim>\<open>for len(b) > 0\<close> of the rotation branch. A send to the full queue waits
  for the drain task.
\<close>

function send_chunks ::
    "nat \<Rightarrow> byte list \<Rightarrow> byte list chan \<Rightarrow> byte list list
       \<Rightarrow> (byte list chan \<times> byte list list) outcome" where
  "send_chunks BufferSize b q pl =
     (if length b > 0 then
        (let (buf, pl1) = pool_Get BufferSize pl;
             n = min (length buf) (length b)
         in if length (cbuf q) < ccap q
            then send_chunks BufferSize (drop n b) (q\<lparr>cbuf := cbuf q @ [take n b]\<rparr>) pl1
            else Blocks)
      else Returns (q, pl))"
  by pat_completeness auto
termination
  by (relation "measure (\<lambda>(BufferSize, b, q, pl). ccap q - length (cbuf q))") auto

declare send_chunks.simps [simp del]

definition AsynchronousWriter_rotate ::
    "nat \<Rightarrow> string \<Rightarrow> byte list \<Rightarrow> AsynchronousWriter \<Rightarrow> world
       \<Rightarrow> ((int \<times> error option) \<times> AsynchronousWriter \<times> world \<times> string option) outcome" where
  "AsynchronousWriter_rotate BufferSize filename b w os =
     (let (err, w1, os1, sp) = Reopen filename w os in
      case err of
        Some e \<Rightarrow> Returns ((0, Some e), w1, os1, sp)
      | None \<Rightarrow>
          (case send_chunks BufferSize b (queue w1) (pool w1) of
             Returns (q, pl) \<Rightarrow> Returns ((int (length b), None), w1\<lparr>queue := q, pool := pl\<rparr>, os1, sp)
           | Blocks \<Rightarrow> Blocks
           | Panics \<Rightarrow> Panics))"

definition AsynchronousWriter_enqueue ::
    "nat \<Rightarrow> byte list \<Rightarrow> AsynchronousWriter \<Rightarrow> world
       \<Rightarrow> ((int \<times> error option) \<times> AsynchronousWriter \<times> world \<times> string option) outcome" where
  "AsynchronousWriter_enqueue BufferSize b w os =
     (let (buf, pl1) = pool_Get BufferSize (pool w) in
      if length (cbuf (queue w)) < ccap (queue w)
      then Returns ((int (length b), None),
                    w\<lparr>queue := (queue w)\<lparr>cbuf := cbuf (queue w) @ [b]\<rparr>, pool := pl1\<rparr>, os, None)
      else Blocks)"

text \<open>
  \<^verbatim>\<open>AsynchronousWriter.Write\<close>. Its \<^verbatim>\<open>select\<close> can receive from \<^verbatim>\<open>errChan\<close> when the
  drain task waits at its send, and from \<^verbatim>\<open>fire\<close> when a name is waiting; when both
  can proceed Go chooses either, which is the parameter \<open>pick_err\<close>.
\<close>

definition AsynchronousWriter_Write ::
    "nat \<Rightarrow> bool \<Rightarrow> byte list \<Rightarrow> AsynchronousWriter \<Rightarrow> world
       \<Rightarrow> ((int \<times> error option) \<times> AsynchronousWriter \<times> world \<times> string option) outcome" where
  "AsynchronousWriter_Write BufferSize pick_err b w os =
     (if closed w = 0 then
        (case drain w of
           AtSend e c \<Rightarrow>
             (case fire w of
                [] \<Rightarrow> Returns ((0, Some e), w\<lparr>drain := AtPut c\<rparr>, os, None)
              | filename # rest \<Rightarrow>
                  if pick_err then Returns ((0, Some e), w\<lparr>drain := AtPut c\<rparr>, os, None)
                  else AsynchronousWriter_rotate BufferSize filename b (w\<lparr>fire := rest\<rparr>) os)
         | _ \<Rightarrow>
             (case fire w of
                [] \<Rightarrow> AsynchronousWriter_enqueue BufferSize b w os
              | filename # rest \<Rightarrow>
                  AsynchronousWriter_rotate BufferSize filename b (w\<lparr>fire := rest\<rparr>) os))
      else Returns ((0, Some ErrClosed), w, os, None))"

text \<open>
  One move of the task \<^verbatim>\<open>writer()\<close>; \<open>None\<close> when it cannot move: nothing to
  receive, waiting at its send with no receiver, or gone. At the send it moves on as
  soon as a receiver waits on \<^verbatim>\<open>errChan\<close>. \<open>pick_ctx\<close> is Go's choice when both
  cases of its \<^verbatim>\<open>select\<close> can proceed.
\<close>

definition writer_step ::
    "bool \<Rightarrow> AsynchronousWriter \<Rightarrow> world \<Rightarrow> (AsynchronousWriter \<times> world) option" where
  "writer_step pick_ctx w os =
     (case drain w of
        Exited \<Rightarrow> None
      | AtSend e b \<Rightarrow>
          if pollers w > 0
          then Some (w\<lparr>drain := AtPut b, pollers := pollers w - 1\<rparr>, os)
          else None
      | AtPut b \<Rightarrow> Some (w\<lparr>drain := AtSelect, pool := b # pool w\<rparr>, os)
      | AtSelect \<Rightarrow>
          (case cbuf (queue w) of
             [] \<Rightarrow> if ctx_closed w then Some (w\<lparr>drain := Exited\<rparr>, os) else None
           | b # rest \<Rightarrow>
               if ctx_closed w \<and> pick_ctx then Some (w\<lparr>drain := Exited\<rparr>, os)
               else
                 (let w1 = w\<lparr>queue := (queue w)\<lparr>cbuf := rest\<rparr>\<rparr>;
                      ((_, err), os1) = file_Write (wfile w1) b os
                  in case err of
                       None \<Rightarrow> Some (w1\<lparr>pool := b # pool w1\<rparr>, os1)
                     | Some e \<Rightarrow>
                         if pollers w1 > 0
                         then Some (w1\<lparr>pollers := pollers w1 - 1, pool := b # pool w1\<rparr>, os1)
                         else Some (w1\<lparr>drain := AtSend e b\<rparr>, os1))))"

text \<open>
  A task outside the writer executes \<^verbatim>\<open><-errChan\<close> on the channel it got from
  \<^verbatim>\<open>AsynchronousWriterErrorChan\<close>: it takes the error when the drain task waits at
  its send, and otherwise waits itself.
\<close>

definition outside_receive :: "AsynchronousWriter \<Rightarrow> error option \<times> AsynchronousWriter" where
  "outside_receive w =
     (case drain w of
        AtSend e b \<Rightarrow> (Some e, w\<lparr>drain := AtPut b\<rparr>)
      | _ \<Rightarrow> (None, w\<lparr>pollers := pollers w + 1\<rparr>))"

text \<open>
  \<^verbatim>\<open>onClose\<close>: the loop over the chunks still queued. Its send to \<^verbatim>\<open>errChan\<close> is inside
  a \<^verbatim>\<open>select\<close> with a \<^verbatim>\<open>default\<close>, so it goes through only when a receiver waits.
  The result is the queue left, the pool, the receivers left and the world.
\<close>

fun onClose_loop ::
    "nat option \<Rightarrow> byte list list \<Rightarrow> byte list list \<Rightarrow> nat \<Rightarrow> world
       \<Rightarrow> byte list list \<times> byte list list \<times> nat \<times> world" where
  "onClose_loop h [] pl n os = ([], pl, n, os)"
| "onClose_loop h (b # rest) pl n os =
     (let ((_, err), os1) = file_Write h b os in
      case err of
        None \<Rightarrow> onClose_loop h rest (b # pl) n os1
      | Some e \<Rightarrow>
          if n > 0 then onClose_loop h rest (b # pl) (n - 1) os1
          else (rest, b # pl, n, os1))"

definition onClose :: "AsynchronousWriter \<Rightarrow> world \<Rightarrow> AsynchronousWriter \<times> world" where
  "onClose w os =
     (let (q, pl, n, os1) = onClose_loop (wfile w) (cbuf (queue w)) (pool w) (pollers w) os
      in (w\<lparr>queue := (queue w)\<lparr>cbuf := q\<rparr>, pool := pl, pollers := n\<rparr>, os1))"

definition AsynchronousWriter_Close ::
    "AsynchronousWriter \<Rightarrow> world \<Rightarrow> error option \<times> AsynchronousWriter \<times> world" where
  "AsynchronousWriter_Close w os =
     (if closed w = 0 then
        (let (w1, os1) = onClose (w\<lparr>closed := 1, ctx_closed := True\<rparr>) os;
             (e, os2) = file_Close (wfile w1) os1
         in (e, w1, os2))
      else (Some ErrClosed, w, os))"

section \<open>The buffered writer\<close>

text \<open>
  Here the code sets a capacity itself, so a byte slice is its bytes and its capacity.
  \<^verbatim>\<open>make([]byte, 0, c)\<close> panics on a negative \<open>c\<close>. \<^verbatim>\<open>append\<close> keeps the capacity
  when the bytes fit and otherwise takes the capacity the runtime chooses, the
  parameter \<open>growslice\<close> (old capacity, length needed).
\<close>

record slice =
  sdata :: "byte list"
  scap :: nat

definition make_bytes :: "int \<Rightarrow> slice option" where
  "make_bytes c = (if c < 0 then None else Some \<lparr>sdata = [], scap = nat c\<rparr>)"

definition append_bytes :: "(nat \<Rightarrow> nat \<Rightarrow> nat) \<Rightarrow> slice \<Rightarrow> byte list \<Rightarrow> slice" where
  "append_bytes growslice s b =
     \<lparr>sdata = sdata s @ b,
      scap = (if length (sdata s) + length b \<le> scap s then scap s
              else growslice (scap s) (length (sdata s) + length b))\<rparr>"

record BufferWriter = Writer +
  buf :: slice
  swaping :: "32 word"

definition BufferWriter_Write ::
    "(nat \<Rightarrow> nat \<Rightarrow> nat) \<Rightarrow> byte list \<Rightarrow> BufferWriter \<Rightarrow> world
       \<Rightarrow> ((int \<times> error option) \<times> BufferWriter \<times> world \<times> string option) outcome" where
  "BufferWriter_Write growslice b w os =
     (let (err, w1, os1, sp) = select_fire w os in
      case err of
        Some e \<Rightarrow> Returns ((0, Some e), w1, os1, sp)
      | None \<Rightarrow>
          (let w2 = w1\<lparr>buf := append_bytes growslice (buf w1) b\<rparr> in
           if int (length (sdata (buf w2))) > BufferWriterThershould (cf w2) \<and> swaping w2 = 0
           then
             (let w3 = w2\<lparr>swaping := 1\<rparr> in
              case make_bytes (int64_wrap (BufferWriterThershould (cf w3) * 2)) of
                None \<Rightarrow> Panics
              | Some nb \<Rightarrow>
                  (let ob = buf w3;
                       w4 = w3\<lparr>buf := nb\<rparr>;
                       (_, os2) = file_Write (wfile w4) (sdata ob) os1
                   in Returns ((int (length b), None), w4\<lparr>swaping := 0\<rparr>, os2, sp)))
           else Returns ((int (length b), None), w2, os1, sp)))"

definition BufferWriter_Close :: "BufferWriter \<Rightarrow> world \<Rightarrow> error option \<times> world" where
  "BufferWriter_Close w os =
     (let (_, os1) = file_Write (wfile w) (sdata (buf w)) os
      in file_Close (wfile w) os1)"


section \<open>Construction\<close>

text \<open>
  \<^verbatim>\<open>NewWriterFromConfig\<close>. \<^verbatim>\<open>LogFilePath\<close>, \<^verbatim>\<open>NewManager\<close> and \<^verbatim>\<open>QueueSize\<close> are
  declared outside \<^verbatim>\<open>writer.go\<close>: the path, the error of \<^verbatim>\<open>NewManager\<close> and the queue
  size are parameters, and the new manager's \<^verbatim>\<open>fire\<close> channel is empty. Directories
  are not part of the model, so \<^verbatim>\<open>os.MkdirAll\<close> only succeeds or fails. The task
  started last (it may send one name on \<^verbatim>\<open>fire\<close>, depending on the clock) is left out.
\<close>

datatype RollingWriter =
    Plain Writer
  | Locked LockedWriter
  | Asynchronous AsynchronousWriter
  | Buffered BufferWriter

definition os_MkdirAll :: "string \<Rightarrow> world \<Rightarrow> error option \<times> world" where
  "os_MkdirAll path os = next_fault (called (CallMkdirAll path) os)"

definition NewWriterFromConfig ::
    "string \<Rightarrow> error option \<Rightarrow> nat \<Rightarrow> Config \<Rightarrow> world
       \<Rightarrow> (RollingWriter option \<times> error option) outcome \<times> world" where
  "NewWriterFromConfig filepath manager_err QueueSize c os =
     (if LogPath c = [] \<or> FileName c = [] then (Returns (None, Some ErrInvalidArgument), os)
      else
        (let (err, os1) = os_MkdirAll (LogPath c) os in
         if err \<noteq> None then (Returns (None, err), os1)
         else
           (let (f, err, os2) = os_OpenFile filepath os1 in
            if err \<noteq> None then (Returns (None, err), os2)
            else if manager_err \<noteq> None then (Returns (None, manager_err), os2)
            else
              (let ch = (if MaxRemain c > 0
                         then Some \<lparr>cbuf = [], ccap = nat (MaxRemain c)\<rparr>
                         else None)
               in if WriterMode c = ''none''
                  then (Returns (Some (Plain
                          \<lparr>wfile = f, absPath = filepath, fire = [], cf = c,
                           rollingfilech = ch\<rparr>), None), os2)
                  else if WriterMode c = ''lock''
                  then (Returns (Some (Locked
                          \<lparr>wfile = f, absPath = filepath, fire = [], cf = c,
                           rollingfilech = ch, mu = False\<rparr>), None), os2)
                  else if WriterMode c = ''async''
                  then (Returns (Some (Asynchronous
                          \<lparr>wfile = f, absPath = filepath, fire = [], cf = c,
                           rollingfilech = ch, ctx_closed = False,
                           queue = \<lparr>cbuf = [], ccap = QueueSize\<rparr>, closed = 0,
                           drain = AtSelect, pollers = 0, pool = []\<rparr>), None), os2)
                  else if WriterMode c = ''buffer''
                  then (case make_bytes (int64_wrap (BufferWriterThershould c * 2)) of
                          None \<Rightarrow> (Panics, os2)
                        | Some bf \<Rightarrow>
                            (Returns (Some (Buffered
                               \<lparr>wfile = f, absPath = filepath, fire = [], cf = c,
                                rollingfilech = ch, buf = bf, swaping = 0\<rparr>), None), os2))
                  else (Returns (None, Some ErrInvalidArgument), os2)))))"

section \<open>Observing a run\<close>

text \<open>
  The calls made between two worlds of one run (the trace only grows), and the number
  of \<^verbatim>\<open>os.Rename\<close> calls among them.
\<close>

definition calls_of :: "world \<Rightarrow> world \<Rightarrow> call list" where
  "calls_of os os' = drop (length (trace os)) (trace os')"

fun is_rename :: "call \<Rightarrow> bool" where
  "is_rename (CallRename old new) = True"
| "is_rename c = False"

definition rename_attempts :: "call list \<Rightarrow> nat" where
  "rename_attempts cs = length (filter is_rename cs)"

text \<open>
  The outcome that is waiting for the \<open>k\<close>-th call from now that reaches the kernel
  (counted from 0); beyond the end of the list no failure is waiting.
\<close>

primrec nth_fault :: "error option list \<Rightarrow> nat \<Rightarrow> error option" where
  "nth_fault [] k = None"
| "nth_fault (f # fs) k = (case k of 0 \<Rightarrow> f | Suc j \<Rightarrow> nth_fault fs j)"

definition fault_at :: "nat \<Rightarrow> world \<Rightarrow> error option" where
  "fault_at k os = nth_fault (faults os) k"

text \<open>
  Two worlds with the same file system: the same directory entries, file contents,
  handles and pending outcomes. Only the trace may differ, so no call in between has
  reached the kernel.
\<close>

definition same_files :: "world \<Rightarrow> world \<Rightarrow> bool" where
  "same_files os os' =
     (names os' = names os \<and> inodes os' = inodes os \<and> next_ino os' = next_ino os
      \<and> handles os' = handles os \<and> next_handle os' = next_handle os
      \<and> faults os' = faults os)"

section \<open>Rotations in sequence\<close>

text \<open>
  One rotation under the schedule in which the background task that \<^verbatim>\<open>Reopen\<close> starts
  runs to its end before anything else happens, and a list of rotations under that
  schedule. \<open>None\<close> when a background task never ends.
\<close>

definition rotate ::
    "(byte list \<Rightarrow> byte list) \<Rightarrow> string \<Rightarrow> 'a Writer_scheme \<Rightarrow> world \<Rightarrow> ('a Writer_scheme \<times> world) option" where
  "rotate gz target w os =
     (case Reopen target w os of
        (err, w1, os1, sp) \<Rightarrow>
          (case sp of
             None \<Rightarrow> Some (w1, os1)
           | Some t \<Rightarrow> Reopen_go gz t w1 os1))"

fun rotations ::
    "(byte list \<Rightarrow> byte list) \<Rightarrow> string list \<Rightarrow> 'a Writer_scheme \<Rightarrow> world \<Rightarrow> ('a Writer_scheme \<times> world) option" where
  "rotations gz [] w os = Some (w, os)"
| "rotations gz (t # ts) w os =
     (case rotate gz t w os of
        None \<Rightarrow> None
      | Some (w1, os1) \<Rightarrow> rotations gz ts w1 os1)"

text \<open>The names waiting in the retention channel of a writer.\<close>

definition retained :: "'a Writer_scheme \<Rightarrow> string list" where
  "retained w = (case rollingfilech w of None \<Rightarrow> [] | Some ch \<Rightarrow> cbuf ch)"

section \<open>Concurrent callers of the buffered writer\<close>

text \<open>
  \<^verbatim>\<open>BufferWriter.Write\<close> is written for several callers at once, so here it is cut at
  its accesses to the shared writer, in the order of the source: the rotation check,
  the \<^verbatim>\<open>append\<close> that reads the shared buffer, the \<^verbatim>\<open>StorePointer\<close>, the length test,
  the \<^verbatim>\<open>CompareAndSwapInt32\<close> (only reached when the test holds), \<^verbatim>\<open>make\<close> with
  \<^verbatim>\<open>SwapPointer\<close>, the write of the old buffer, the \<^verbatim>\<open>StoreInt32\<close> that releases the
  flag, and the return. A caller is its input and its position, which carries the
  slice it holds. The system is the shared writer, the world and the callers; a
  schedule is the list of callers in the order in which they take their next step.
  The bytes of a slice are a value here: writes of racing \<^verbatim>\<open>append\<close>s into a shared
  backing array are not part of the model.
\<close>

datatype bw_pc =
    AtFire | AtAppend | AtStore slice | AtTest | AtCAS | AtSwap | AtFlush slice | AtRelease
  | Returned | Panicked

record caller =
  cb :: "byte list"
  cpc :: bw_pc

record bw_sys =
  shared :: BufferWriter
  sys_os :: world
  callers :: "caller list"
  tasks :: "string list"

definition at_pc :: "nat \<Rightarrow> bw_pc \<Rightarrow> bw_sys \<Rightarrow> bw_sys" where
  "at_pc i pc s = s\<lparr>callers := (callers s)[i := (callers s ! i)\<lparr>cpc := pc\<rparr>]\<rparr>"

definition bw_step :: "(nat \<Rightarrow> nat \<Rightarrow> nat) \<Rightarrow> nat \<Rightarrow> bw_sys \<Rightarrow> bw_sys" where
  "bw_step growslice i s =
     (if i < length (callers s) then
        (let w = shared s; b = cb (callers s ! i) in
         case cpc (callers s ! i) of
           AtFire \<Rightarrow>
             (let (err, w1, os1, sp) = select_fire w (sys_os s);
                  s1 = s\<lparr>shared := w1, sys_os := os1,
                         tasks := tasks s @ (case sp of None \<Rightarrow> [] | Some t \<Rightarrow> [t])\<rparr>
              in case err of
                   Some e \<Rightarrow> at_pc i Returned s1
                 | None \<Rightarrow> at_pc i AtAppend s1)
         | AtAppend \<Rightarrow> at_pc i (AtStore (append_bytes growslice (buf w) b)) s
         | AtStore lbuf \<Rightarrow> at_pc i AtTest (s\<lparr>shared := w\<lparr>buf := lbuf\<rparr>\<rparr>)
         | AtTest \<Rightarrow>
             if int (length (sdata (buf w))) > BufferWriterThershould (cf w)
             then at_pc i AtCAS s
             else at_pc i Returned s
         | AtCAS \<Rightarrow>
             if swaping w = 0
             then at_pc i AtSwap (s\<lparr>shared := w\<lparr>swaping := 1\<rparr>\<rparr>)
             else at_pc i Returned s
         | AtSwap \<Rightarrow>
             (case make_bytes (int64_wrap (BufferWriterThershould (cf w) * 2)) of
                None \<Rightarrow> at_pc i Panicked s
              | Some nb \<Rightarrow> at_pc i (AtFlush (buf w)) (s\<lparr>shared := w\<lparr>buf := nb\<rparr>\<rparr>))
         | AtFlush ob \<Rightarrow>
             at_pc i AtRelease (s\<lparr>sys_os := snd (file_Write (wfile w) (sdata ob) (sys_os s))\<rparr>)
         | AtRelease \<Rightarrow> at_pc i Returned (s\<lparr>shared := w\<lparr>swaping := 0\<rparr>\<rparr>)
         | Returned \<Rightarrow> s
         | Panicked \<Rightarrow> s)
      else s)"

fun run :: "(nat \<Rightarrow> nat \<Rightarrow> nat) \<Rightarrow> nat list \<Rightarrow> bw_sys \<Rightarrow> bw_sys" where
  "run growslice [] s = s"
| "run growslice (i # sched) s = run growslice sched (bw_step growslice i s)"

text \<open>
  The callers that have taken the flag and not yet released it (a caller that
  panicked in \<^verbatim>\<open>make\<close> never releases it), and the system in which every caller is
  about to start its \<^verbatim>\<open>Write\<close>.
\<close>

fun holds_flag :: "bw_pc \<Rightarrow> bool" where
  "holds_flag AtSwap = True"
| "holds_flag (AtFlush ob) = True"
| "holds_flag AtRelease = True"
| "holds_flag Panicked = True"
| "holds_flag pc = False"

definition holders :: "bw_sys \<Rightarrow> caller list" where
  "holders s = filter (\<lambda>c. holds_flag (cpc c)) (callers s)"

definition start :: "BufferWriter \<Rightarrow> world \<Rightarrow> byte list list \<Rightarrow> bw_sys" where
  "start w os bs =
     \<lparr>shared = w, sys_os = os, callers = map (\<lambda>b. \<lparr>cb = b, cpc = AtFire\<rparr>) bs, tasks = []\<rparr>"

text \<open>
  The flag and the callers agree: the flag is idle and nobody holds it, or it is
  active and exactly one caller holds it.
\<close>

definition flag_inv :: "bw_sys \<Rightarrow> bool" where
  "flag_inv s = ((swaping (shared s) = 0 \<and> holders s = [])
                 \<or> (swaping (shared s) = 1 \<and> length (holders s) = 1))"

section \<open>Example states\<close>

text \<open>
  A file system that holds the active log file \<^verbatim>\<open>app.log\<close> with three bytes in it,
  open through handle 0, and the configuration and the writers on which the theorems
  below are run. They are what \<open>NewWriterFromConfig\<close> builds for the four modes
  (with a queue of 8 chunks).
\<close>

definition os_ex :: world where
  "os_ex = \<lparr>names = [''app.log'' \<mapsto> 0], inodes = (\<lambda>_. [])(0 := [1, 2, 3]), next_ino = 1,
            handles = [0 \<mapsto> \<lparr>hino = 0, hmode = O_RDWR_CREATE_APPEND, hclosed = False\<rparr>],
            next_handle = 1, faults = [], trace = []\<rparr>"

definition cf_ex :: Config where
  "cf_ex = \<lparr>LogPath = ''.'', FileName = ''app'', Compress = False, MaxRemain = 2,
            WriterMode = ''none'', BufferWriterThershould = 4\<rparr>"

definition w_ex :: Writer where
  "w_ex = \<lparr>wfile = Some 0, absPath = ''app.log'', fire = [], cf = cf_ex,
           rollingfilech = Some \<lparr>cbuf = [], ccap = 2\<rparr>\<rparr>"

definition lw_ex :: LockedWriter where
  "lw_ex = \<lparr>wfile = Some 0, absPath = ''app.log'', fire = [], cf = cf_ex,
            rollingfilech = Some \<lparr>cbuf = [], ccap = 2\<rparr>, mu = False\<rparr>"

definition aw_ex :: AsynchronousWriter where
  "aw_ex = \<lparr>wfile = Some 0, absPath = ''app.log'', fire = [], cf = cf_ex,
            rollingfilech = Some \<lparr>cbuf = [], ccap = 2\<rparr>, ctx_closed = False,
            queue = \<lparr>cbuf = [], ccap = 8\<rparr>, closed = 0, drain = AtSelect, pollers = 0,
            pool = []\<rparr>"

definition bw_ex :: BufferWriter where
  "bw_ex = \<lparr>wfile = Some 0, absPath = ''app.log'', fire = [], cf = cf_ex,
            rollingfilech = Some \<lparr>cbuf = [], ccap = 2\<rparr>,
            buf = \<lparr>sdata = [], scap = 8\<rparr>, swaping = 0\<rparr>"


text \<open>The asynchronous writer with one chunk of two bytes still in its queue.\<close>

definition aw_queued_ex :: AsynchronousWriter where
  "aw_queued_ex = aw_ex\<lparr>queue := \<lparr>cbuf = [[4, 5]], ccap = 8\<rparr>\<rparr>"

text \<open>A world in which the close of handle 0 succeeds and the next three calls fail.\<close>

definition os_busy_ex :: world where
  "os_busy_ex = os_ex\<lparr>faults := [None, Some (Errno 16), Some (Errno 16), Some (Errno 16)]\<rparr>"

text \<open>A world in which the next call that reaches the kernel fails (no space left).\<close>

definition os_full_ex :: world where
  "os_full_ex = os_ex\<lparr>faults := [Some (Errno 28)]\<rparr>"

text \<open>
  The asynchronous writer whose drain task waits at its send with the error of a
  failed write, holding the chunk.
\<close>

definition aw_waiting_ex :: AsynchronousWriter where
  "aw_waiting_ex = aw_ex\<lparr>drain := AtSend (Errno 28) [4, 5]\<rparr>"

text \<open>
  For compression: the writer with \<^verbatim>\<open>Compress\<close> set, a stand-in for the gzip encoding
  (two bytes before the data), and worlds in which the seventh or the fifth call that
  reaches the kernel fails: counted from a rotation, the copy and the opening of the
  temporary file in \<^verbatim>\<open>CompressFile\<close>.
\<close>

definition w_gz_ex :: Writer where
  "w_gz_ex = w_ex\<lparr>cf := cf_ex\<lparr>Compress := True\<rparr>\<rparr>"

definition gz_ex :: "byte list \<Rightarrow> byte list" where
  "gz_ex bs = [31, 139] @ bs"

definition os_copy_fails_ex :: world where
  "os_copy_fails_ex = os_ex\<lparr>faults := [None, None, None, None, None, None, Some (Errno 5)]\<rparr>"

definition os_open_fails_ex :: world where
  "os_open_fails_ex = os_ex\<lparr>faults := [None, None, None, None, Some (Errno 13)]\<rparr>"

text \<open>
  The world after a rotation to \<^verbatim>\<open>app.1\<close> with compression pending: the old log is
  \<^verbatim>\<open>app.1.tmp\<close>, the new log \<^verbatim>\<open>app.log\<close> is empty and open through handle 1. In the
  second world the fourth call that reaches the kernel fails: the copy.
\<close>

definition os_rotated_ex :: world where
  "os_rotated_ex =
     \<lparr>names = [''app.1.tmp'' \<mapsto> 0, ''app.log'' \<mapsto> 1],
      inodes = (\<lambda>_. [])(0 := [1, 2, 3]), next_ino = 2,
      handles = [0 \<mapsto> \<lparr>hino = 0, hmode = O_RDWR_CREATE_APPEND, hclosed = True\<rparr>,
                 1 \<mapsto> \<lparr>hino = 1, hmode = O_RDWR_CREATE_APPEND, hclosed = False\<rparr>],
      next_handle = 2, faults = [], trace = []\<rparr>"

definition os_rotated_bad_ex :: world where
  "os_rotated_bad_ex = os_rotated_ex\<lparr>faults := [None, None, None, Some (Errno 5)]\<rparr>"

text \<open>A world in which the close succeeds and only the first rename fails.\<close>

definition os_once_ex :: world where
  "os_once_ex = os_ex\<lparr>faults := [None, Some (Errno 16)]\<rparr>"

text \<open>
  The same world when the seventh call fails (the write of the gzip stream at the
  deferred close), and when the copy and then the removal of the target fail.
\<close>

definition os_flush_fails_ex :: world where
  "os_flush_fails_ex = os_rotated_ex\<lparr>faults := [None, None, None, None, None, None, Some (Errno 28)]\<rparr>"

definition os_remove_fails_ex :: world where
  "os_remove_fails_ex = os_rotated_ex\<lparr>faults := [None, None, None, Some (Errno 5), None, Some (Errno 13)]\<rparr>"

section \<open>Running the model\<close>

text \<open>The defining equations with which \<open>simp\<close> runs the calls on a concrete state.\<close>

lemmas os_defs =
  called_def next_fault_def os_Rename_def os_Remove_def new_handle_def os_OpenFile_def
  os_Open_def lookup_handle_def file_Close_def file_Write_def file_Seek_def io_Copy_def
  time_Sleep_def log_Println_def

lemmas ex_defs = os_ex_def cf_ex_def w_ex_def lw_ex_def aw_ex_def bw_ex_def

section \<open>\<^verbatim>\<open>Reopen\<close> never returns an error\<close>

lemma Reopen_open_nil: "fst (Reopen_open target w os) = None"
  by (simp add: Reopen_open_def split: prod.splits option.splits)

lemma Reopen_nil: "fst (Reopen target w os) = None"
  by (simp add: Reopen_def Reopen_open_nil Let_def split: prod.splits)

lemma select_fire_nil: "fst (select_fire w os) = None"
  by (simp add: select_fire_def Reopen_nil split: list.splits)

text \<open>
  C10: \<^verbatim>\<open>Reopen\<close> returns a nil error for every target name, every writer and every
  world, whatever the faults the file system answers with. Hence the rotation check
  never yields an error, and every \<^verbatim>\<open>Write\<close> is equal to what it is without the branch
  that returns \<^verbatim>\<open>Reopen\<close>'s error: the plain and the locked writer go on to write to the
  file, the asynchronous writer goes on to queue its chunks, and the buffered writer
  returns the length of its input and no error whenever it returns.
\<close>

theorem Reopen_error_always_nil:
  fixes w :: "'a Writer_scheme" and lw :: LockedWriter and aw :: AsynchronousWriter
    and bw :: BufferWriter
  shows "fst (Reopen target w os) = None
    \<and> fst (select_fire w os) = None
    \<and> Writer_Write b w os =
        (case select_fire w os of (err, w1, os1, sp) \<Rightarrow>
           case file_Write (wfile w1) b os1 of (r, os2) \<Rightarrow> (r, w1, os2, sp))
    \<and> LockedWriter_Write b lw os =
        (if mu lw then Blocks
         else case select_fire (lw\<lparr>mu := True\<rparr>) os of (err, w1, os1, sp) \<Rightarrow>
           case file_Write (wfile w1) b os1 of (r, os2) \<Rightarrow> Returns (r, w1\<lparr>mu := False\<rparr>, os2, sp))
    \<and> AsynchronousWriter_rotate BufferSize target b aw os =
        (case Reopen target aw os of (err, w1, os1, sp) \<Rightarrow>
           case send_chunks BufferSize b (queue w1) (pool w1) of
             Returns (q, pl) \<Rightarrow> Returns ((int (length b), None), w1\<lparr>queue := q, pool := pl\<rparr>, os1, sp)
           | Blocks \<Rightarrow> Blocks
           | Panics \<Rightarrow> Panics)
    \<and> (case BufferWriter_Write growslice b bw os of
          Returns ((n, err), w1, os1, sp) \<Rightarrow> n = int (length b) \<and> err = None
        | Blocks \<Rightarrow> False
        | Panics \<Rightarrow> True)"
proof -
  have 1: "fst (Reopen target w os) = None" by (rule Reopen_nil)
  have 2: "fst (select_fire w os) = None" by (rule select_fire_nil)
  have 3: "Writer_Write b w os =
        (case select_fire w os of (err, w1, os1, sp) \<Rightarrow>
           case file_Write (wfile w1) b os1 of (r, os2) \<Rightarrow> (r, w1, os2, sp))"
    using select_fire_nil[of w os]
    by (cases "select_fire w os") (simp add: Writer_Write_def)
  have 4: "LockedWriter_Write b lw os =
        (if mu lw then Blocks
         else case select_fire (lw\<lparr>mu := True\<rparr>) os of (err, w1, os1, sp) \<Rightarrow>
           case file_Write (wfile w1) b os1 of (r, os2) \<Rightarrow> Returns (r, w1\<lparr>mu := False\<rparr>, os2, sp))"
    using select_fire_nil[of "lw\<lparr>mu := True\<rparr>" os]
    by (cases "select_fire (lw\<lparr>mu := True\<rparr>) os") (simp add: LockedWriter_Write_def)
  have 5: "AsynchronousWriter_rotate BufferSize target b aw os =
        (case Reopen target aw os of (err, w1, os1, sp) \<Rightarrow>
           case send_chunks BufferSize b (queue w1) (pool w1) of
             Returns (q, pl) \<Rightarrow> Returns ((int (length b), None), w1\<lparr>queue := q, pool := pl\<rparr>, os1, sp)
           | Blocks \<Rightarrow> Blocks
           | Panics \<Rightarrow> Panics)"
    using Reopen_nil[of target aw os]
    by (cases "Reopen target aw os") (simp add: AsynchronousWriter_rotate_def)
  have 6: "(case BufferWriter_Write growslice b bw os of
          Returns ((n, err), w1, os1, sp) \<Rightarrow> n = int (length b) \<and> err = None
        | Blocks \<Rightarrow> False
        | Panics \<Rightarrow> True)"
    using select_fire_nil[of bw os]
    by (cases "select_fire bw os")
       (simp add: BufferWriter_Write_def Let_def split: prod.splits option.splits)
  from 1 2 3 4 5 6 show ?thesis by blast
qed

theorem Reopen_error_always_nil_witness:
  "fst (Reopen ''app.1'' (w_ex\<lparr>fire := [''app.1'']\<rparr>) os_busy_ex) = None
   \<and> Writer_Write [7] (w_ex\<lparr>fire := [''app.1'']\<rparr>) os_busy_ex =
       (case select_fire (w_ex\<lparr>fire := [''app.1'']\<rparr>) os_busy_ex of (err, w1, os1, sp) \<Rightarrow>
          case file_Write (wfile w1) [7] os1 of (r, os2) \<Rightarrow> (r, w1, os2, sp))"
  using Reopen_error_always_nil[where target = "''app.1''" and w = "w_ex\<lparr>fire := [''app.1'']\<rparr>"
      and os = os_busy_ex and b = "[7]"]
  by simp

section \<open>The asynchronous writer after \<^verbatim>\<open>Close\<close>\<close>

text \<open>
  C7: once \<^verbatim>\<open>Close\<close> of the asynchronous writer has returned, every \<^verbatim>\<open>Write\<close> on the
  writer it leaves returns at once with count 0 and \<^verbatim>\<open>ErrClosed\<close>, in whatever world it
  is called; writer and world are returned as they were (nothing is queued, nothing is
  written, no rotation is started), so the same holds for every later \<^verbatim>\<open>Write\<close>.
\<close>

theorem AsynchronousWriter_Write_after_Close:
  "AsynchronousWriter_Close w os = (e, w1, os1) \<Longrightarrow>
     AsynchronousWriter_Write BufferSize pick_err b w1 os2 = Returns ((0, Some ErrClosed), w1, os2, None)"
  by (auto simp add: AsynchronousWriter_Write_def AsynchronousWriter_Close_def onClose_def
      split: prod.splits if_splits)

theorem AsynchronousWriter_Write_after_Close_witness:
  "fst (AsynchronousWriter_Close aw_queued_ex os_ex) = None
   \<and> AsynchronousWriter_Write 4 False [6, 7]
        (fst (snd (AsynchronousWriter_Close aw_queued_ex os_ex)))
        (snd (snd (AsynchronousWriter_Close aw_queued_ex os_ex)))
      = Returns ((0, Some ErrClosed),
          fst (snd (AsynchronousWriter_Close aw_queued_ex os_ex)),
          snd (snd (AsynchronousWriter_Close aw_queued_ex os_ex)), None)"
proof -
  have c: "fst (AsynchronousWriter_Close aw_queued_ex os_ex) = None"
    by (simp add: AsynchronousWriter_Close_def onClose_def aw_queued_ex_def ex_defs os_defs)
  have h: "AsynchronousWriter_Close aw_queued_ex os_ex =
      (fst (AsynchronousWriter_Close aw_queued_ex os_ex),
       fst (snd (AsynchronousWriter_Close aw_queued_ex os_ex)),
       snd (snd (AsynchronousWriter_Close aw_queued_ex os_ex)))"
    by simp
  show ?thesis
    using c AsynchronousWriter_Write_after_Close[OF h] by blast
qed

section \<open>The rename retries of \<^verbatim>\<open>Reopen\<close>\<close>

text \<open>Every call adds exactly its own entry to the trace.\<close>

lemma trace_os_Rename: "trace (snd (os_Rename a b os)) = trace os @ [CallRename a b]"
  by (simp add: os_Rename_def called_def next_fault_def split: list.splits option.splits)

lemma trace_file_Close: "trace (snd (file_Close h os)) = trace os @ [CallClose h]"
  by (simp add: file_Close_def called_def next_fault_def lookup_handle_def Let_def
      split: list.splits option.splits)

lemma trace_os_Open: "trace (snd (snd (os_Open p os))) = trace os @ [CallOpen p]"
  by (simp add: os_Open_def called_def next_fault_def new_handle_def split: list.splits option.splits)

lemma trace_os_OpenFile: "trace (snd (snd (os_OpenFile p os))) = trace os @ [CallOpenFile p]"
  by (simp add: os_OpenFile_def called_def next_fault_def new_handle_def split: list.splits option.splits)

lemma calls_Reopen_open:
  "\<exists>t. trace (fst (snd (snd (Reopen_open target w os)))) = trace os @ CallOpenFile (absPath w) # t
       \<and> (t = [] \<or> (\<exists>e. t = [CallLog e]))"
proof (cases "os_OpenFile (absPath w) os")
  case (fields f err os1)
  with trace_os_OpenFile[of "absPath w" os] have t: "trace os1 = trace os @ [CallOpenFile (absPath w)]"
    by simp
  show ?thesis
  proof (cases err)
    case None
    with fields t show ?thesis by (simp add: Reopen_open_def)
  next
    case (Some e)
    with fields t show ?thesis by (simp add: Reopen_open_def log_Println_def called_def)
  qed
qed

lemma calls_after_prefix:
  assumes "trace os2 = trace os @ p"
    and "trace os' = trace os2 @ CallOpenFile a # t" and "t = [] \<or> (\<exists>e. t = [CallLog e])"
  shows "calls_of os os' = p @ CallOpenFile a # t"
    and "rename_attempts (calls_of os os') = rename_attempts p"
    and "CallSleep 10 \<in> set (calls_of os os') \<longleftrightarrow> CallSleep 10 \<in> set p"
  using assms by (auto simp: calls_of_def rename_attempts_def)

text \<open>
  C3, as the code has it. Let \<open>e1\<close>, \<open>e2\<close>, \<open>e3\<close> be the results of \<^verbatim>\<open>os.Rename\<close> in the
  world after the close, in the world the first attempt leaves, and in the world the
  second attempt leaves after a sleep of 10 milliseconds. When the first attempt
  succeeds, \<^verbatim>\<open>Reopen\<close> makes that one attempt, does not sleep, and goes on to open the
  new file. When it fails, \<^verbatim>\<open>Reopen\<close> retries at once; when that second attempt
  succeeds there are two attempts, no sleep, and the new file is opened. When both
  fail, \<^verbatim>\<open>Reopen\<close> sleeps 10 milliseconds and makes a third attempt; when it succeeds
  the new file is opened; when it fails too, \<^verbatim>\<open>Reopen\<close> gives up: it makes no further
  rename, opens the original path, starts no background task and returns nil.
\<close>

theorem Reopen_rename_attempts:
  "(let a = absPath w; r = (if Compress (cf w) then target @ ''.tmp'' else target) in
    case file_Close (wfile w) os of (e0, os1) \<Rightarrow>
    case os_Rename a r os1 of (e1, os2) \<Rightarrow>
    case os_Rename a r os2 of (e2, os3) \<Rightarrow>
    case os_Rename a r (time_Sleep 10 os3) of (e3, os5) \<Rightarrow>
    case Reopen target w os of (err, w', os', sp) \<Rightarrow>
      (e1 = None \<longrightarrow>
         rename_attempts (calls_of os os') = 1 \<and> CallSleep 10 \<notin> set (calls_of os os')
         \<and> Reopen target w os = Reopen_open target w os2)
    \<and> (e1 \<noteq> None \<and> e2 = None \<longrightarrow>
         rename_attempts (calls_of os os') = 2 \<and> CallSleep 10 \<notin> set (calls_of os os')
         \<and> Reopen target w os = Reopen_open target w os3)
    \<and> (e1 \<noteq> None \<and> e2 \<noteq> None \<longrightarrow>
         rename_attempts (calls_of os os') = 3
         \<and> take 5 (calls_of os os') =
             [CallClose (wfile w), CallRename a r, CallRename a r, CallSleep 10, CallRename a r])
    \<and> (e1 \<noteq> None \<and> e2 \<noteq> None \<and> e3 = None \<longrightarrow>
         Reopen target w os = Reopen_open target w os5)
    \<and> (e1 \<noteq> None \<and> e2 \<noteq> None \<and> e3 \<noteq> None \<longrightarrow>
         err = None \<and> sp = None \<and> names os' = names os5
         \<and> calls_of os os' =
             [CallClose (wfile w), CallRename a r, CallRename a r, CallSleep 10, CallRename a r,
              CallOpen a]))"
proof -
  define a where "a = absPath w"
  define r where "r = (if Compress (cf w) then target @ ''.tmp'' else target)"
  obtain e0 os1 where c: "file_Close (wfile w) os = (e0, os1)" by (cases "file_Close (wfile w) os")
  obtain e1 os2 where r1: "os_Rename a r os1 = (e1, os2)" by (cases "os_Rename a r os1")
  obtain e2 os3 where r2: "os_Rename a r os2 = (e2, os3)" by (cases "os_Rename a r os2")
  obtain e3 os5 where r3: "os_Rename a r (time_Sleep 10 os3) = (e3, os5)"
    by (cases "os_Rename a r (time_Sleep 10 os3)")
  obtain err w' os' sp where R: "Reopen target w os = (err, w', os', sp)"
    by (cases "Reopen target w os")
  have t1: "trace os1 = trace os @ [CallClose (wfile w)]"
    using trace_file_Close[of "wfile w" os] c by simp
  have t2: "trace os2 = trace os @ [CallClose (wfile w), CallRename a r]"
    using trace_os_Rename[of a r os1] r1 t1 by simp
  have t3: "trace os3 = trace os @ [CallClose (wfile w), CallRename a r, CallRename a r]"
    using trace_os_Rename[of a r os2] r2 t2 by simp
  have t5: "trace os5 = trace os @ [CallClose (wfile w), CallRename a r, CallRename a r, CallSleep 10, CallRename a r]"
    using trace_os_Rename[of a r "time_Sleep 10 os3"] r3 t3 by (simp add: time_Sleep_def called_def)
  have A: "e1 = None \<longrightarrow>
         rename_attempts (calls_of os os') = 1 \<and> CallSleep 10 \<notin> set (calls_of os os')
         \<and> Reopen target w os = Reopen_open target w os2"
  proof
    assume n: "e1 = None"
    then have eq: "Reopen target w os = Reopen_open target w os2"
      using c r1 by (simp add: Reopen_def a_def[symmetric] r_def[symmetric] Let_def)
    from calls_Reopen_open[of target w os2] obtain t where
      t: "trace (fst (snd (snd (Reopen_open target w os2)))) = trace os2 @ CallOpenFile (absPath w) # t"
        "t = [] \<or> (\<exists>e. t = [CallLog e])" by blast
    from eq R have "Reopen_open target w os2 = (err, w', os', sp)" by simp
    with t have "trace os' = trace os2 @ CallOpenFile (absPath w) # t" by simp
    from calls_after_prefix(2,3)[OF t2 this t(2)] eq
    show "rename_attempts (calls_of os os') = 1 \<and> CallSleep 10 \<notin> set (calls_of os os')
         \<and> Reopen target w os = Reopen_open target w os2"
      by (simp add: rename_attempts_def)
  qed
  have B: "e1 \<noteq> None \<and> e2 = None \<longrightarrow>
         rename_attempts (calls_of os os') = 2 \<and> CallSleep 10 \<notin> set (calls_of os os')
         \<and> Reopen target w os = Reopen_open target w os3"
  proof
    assume n: "e1 \<noteq> None \<and> e2 = None"
    then have eq: "Reopen target w os = Reopen_open target w os3"
      using c r1 r2 by (simp add: Reopen_def a_def[symmetric] r_def[symmetric] Let_def)
    from calls_Reopen_open[of target w os3] obtain t where
      t: "trace (fst (snd (snd (Reopen_open target w os3)))) = trace os3 @ CallOpenFile (absPath w) # t"
        "t = [] \<or> (\<exists>e. t = [CallLog e])" by blast
    from eq R have "Reopen_open target w os3 = (err, w', os', sp)" by simp
    with t have "trace os' = trace os3 @ CallOpenFile (absPath w) # t" by simp
    from calls_after_prefix(2,3)[OF t3 this t(2)] eq
    show "rename_attempts (calls_of os os') = 2 \<and> CallSleep 10 \<notin> set (calls_of os os')
         \<and> Reopen target w os = Reopen_open target w os3"
      by (simp add: rename_attempts_def)
  qed
  have D: "e1 \<noteq> None \<and> e2 \<noteq> None \<and> e3 = None \<longrightarrow>
         Reopen target w os = Reopen_open target w os5
         \<and> rename_attempts (calls_of os os') = 3
         \<and> take 5 (calls_of os os') =
             [CallClose (wfile w), CallRename a r, CallRename a r, CallSleep 10, CallRename a r]"
  proof
    assume n: "e1 \<noteq> None \<and> e2 \<noteq> None \<and> e3 = None"
    then have eq: "Reopen target w os = Reopen_open target w os5"
      using c r1 r2 r3 by (simp add: Reopen_def a_def[symmetric] r_def[symmetric] Let_def)
    from calls_Reopen_open[of target w os5] obtain t where
      t: "trace (fst (snd (snd (Reopen_open target w os5)))) = trace os5 @ CallOpenFile (absPath w) # t"
        "t = [] \<or> (\<exists>e. t = [CallLog e])" by blast
    from eq R have "Reopen_open target w os5 = (err, w', os', sp)" by simp
    with t have "trace os' = trace os5 @ CallOpenFile (absPath w) # t" by simp
    from calls_after_prefix(1,2)[OF t5 this t(2)] eq
    show "Reopen target w os = Reopen_open target w os5
         \<and> rename_attempts (calls_of os os') = 3
         \<and> take 5 (calls_of os os') =
             [CallClose (wfile w), CallRename a r, CallRename a r, CallSleep 10, CallRename a r]"
      by (simp add: rename_attempts_def)
  qed
  have E: "e1 \<noteq> None \<and> e2 \<noteq> None \<and> e3 \<noteq> None \<longrightarrow>
         err = None \<and> sp = None \<and> names os' = names os5
         \<and> calls_of os os' =
             [CallClose (wfile w), CallRename a r, CallRename a r, CallSleep 10, CallRename a r,
              CallOpen a]"
  proof
    assume n: "e1 \<noteq> None \<and> e2 \<noteq> None \<and> e3 \<noteq> None"
    obtain f e os6 where o: "os_Open a os5 = (f, e, os6)" by (cases "os_Open a os5")
    have t6: "trace os6 = trace os5 @ [CallOpen a]" using trace_os_Open[of a os5] o by simp
    have n6: "names os6 = names os5"
      using o by (auto simp: os_Open_def called_def next_fault_def new_handle_def
          split: list.splits option.splits)
    have "Reopen target w os = (None, w\<lparr>wfile := f\<rparr>, os6, None)"
      using n c r1 r2 r3 o by (simp add: Reopen_def a_def[symmetric] r_def[symmetric] Let_def)
    with R t5 t6 n6 show "err = None \<and> sp = None \<and> names os' = names os5
         \<and> calls_of os os' =
             [CallClose (wfile w), CallRename a r, CallRename a r, CallSleep 10, CallRename a r,
              CallOpen a]"
      by (simp add: calls_of_def)
  qed
  have C: "e1 \<noteq> None \<and> e2 \<noteq> None \<longrightarrow>
         rename_attempts (calls_of os os') = 3
         \<and> take 5 (calls_of os os') =
             [CallClose (wfile w), CallRename a r, CallRename a r, CallSleep 10, CallRename a r]"
    using D E by (cases e3) (auto simp: rename_attempts_def)
  show ?thesis
    unfolding Let_def a_def[symmetric] r_def[symmetric]
    using A B C D E by (simp add: c r1 r2 r3 R)
qed

theorem Reopen_rename_attempts_witness:
  "fst (os_Rename ''app.log'' ''app.1'' (snd (file_Close (Some 0) os_once_ex))) = Some (Errno 16)
   \<and> rename_attempts (calls_of os_once_ex (fst (snd (snd (Reopen ''app.1'' w_ex os_once_ex))))) = 2
   \<and> CallSleep 10 \<notin> set (calls_of os_once_ex (fst (snd (snd (Reopen ''app.1'' w_ex os_once_ex)))))
   \<and> names (fst (snd (snd (Reopen ''app.1'' w_ex os_once_ex)))) ''app.1'' = Some 0
   \<and> snd (snd (snd (Reopen ''app.1'' w_ex os_once_ex))) = Some ''app.1''"
  using Reopen_rename_attempts[of w_ex "''app.1''" os_once_ex]
  by (simp add: calls_of_def Reopen_def Reopen_open_def os_once_ex_def ex_defs os_defs
      rename_attempts_def Let_def)

text \<open>
  C3, as the claim has it (up to four attempts), fails: with the close succeeding and
  the next three calls failing, \<^verbatim>\<open>Reopen\<close> makes three rename attempts, not four, and
  starts no background task, although a fourth attempt would have succeeded.
\<close>

theorem Reopen_no_fourth_rename:
  "rename_attempts (calls_of os_busy_ex (fst (snd (snd (Reopen ''app.1'' w_ex os_busy_ex))))) = 3
   \<and> rename_attempts (calls_of os_busy_ex (fst (snd (snd (Reopen ''app.1'' w_ex os_busy_ex))))) \<noteq> 4
   \<and> snd (snd (snd (Reopen ''app.1'' w_ex os_busy_ex))) = None
   \<and> fst (os_Rename ''app.log'' ''app.1'' (fst (snd (snd (Reopen ''app.1'' w_ex os_busy_ex))))) = None"
  by (simp add: calls_of_def Reopen_def Reopen_open_def os_busy_ex_def ex_defs os_defs
      rename_attempts_def Let_def)

section \<open>What \<^verbatim>\<open>Reopen\<close> leaves when every rename fails\<close>

text \<open>
  C2: in the same world the plain writer receives the name \<^verbatim>\<open>app.1\<close> from \<^verbatim>\<open>fire\<close> and
  is asked to write one byte. All three renames fail, \<^verbatim>\<open>Reopen\<close> opens \<^verbatim>\<open>app.log\<close>
  with \<^verbatim>\<open>os.Open\<close> and returns nil; the new handle 1 is read-only, the write through
  it fails with \<^verbatim>\<open>EBADF\<close>, and the file keeps its three bytes.
\<close>

theorem Reopen_gives_up_read_only:
  "(case Writer_Write [7] (w_ex\<lparr>fire := [''app.1'']\<rparr>) os_busy_ex of
      (r, w1, os1, sp) \<Rightarrow>
        r = (0, Some EBADF) \<and> sp = None \<and> wfile w1 = Some 1
        \<and> handles os1 1 = Some \<lparr>hino = 0, hmode = O_RDONLY, hclosed = False\<rparr>
        \<and> names os1 ''app.log'' = Some 0 \<and> inodes os1 0 = [1, 2, 3])"
  by (simp add: Writer_Write_def select_fire_def Reopen_def Reopen_open_def os_busy_ex_def
      ex_defs os_defs Let_def)

section \<open>Closing twice\<close>

lemma file_Close_twice:
  assumes "file_Close h os = (None, os1)"
  shows "fst (file_Close h os1) = Some ErrFileClosed \<and> same_files os1 (snd (file_Close h os1))"
  using assms
  by (auto simp: file_Close_def lookup_handle_def called_def next_fault_def same_files_def Let_def
      split: option.splits if_splits list.splits)

lemma closed_after_Close:
  assumes "file_Close h os = (None, os1)"
  shows "\<exists>k fh. lookup_handle h os1 = Some (k, fh) \<and> hclosed fh"
  using assms
  by (auto simp: file_Close_def lookup_handle_def called_def next_fault_def Let_def
      split: option.splits if_splits list.splits)

lemma file_Write_on_closed:
  assumes "lookup_handle h os = Some (k, fh)" and "hclosed fh"
  shows "file_Write h b os = ((0, Some ErrFileClosed), called (CallWrite h b) os)"
  using assms by (simp add: file_Write_def lookup_handle_def called_def split: option.splits)

lemma file_Close_on_closed:
  assumes "lookup_handle h os = Some (k, fh)" and "hclosed fh"
  shows "file_Close h os = (Some ErrFileClosed, called (CallClose h) os)"
  using assms by (simp add: file_Close_def lookup_handle_def called_def split: option.splits)

lemma lookup_handle_called: "lookup_handle h (called c os) = lookup_handle h os"
  by (simp add: lookup_handle_def called_def split: option.splits)

lemma same_files_called: "same_files os (called c (called c' os))"
  by (simp add: same_files_def called_def)

text \<open>
  C6: for each of the four writers, when a first \<^verbatim>\<open>Close\<close> has succeeded (returned
  nil), a second \<^verbatim>\<open>Close\<close> returns an already-closed error and the file system is as
  the first one left it: the handle is not closed a second time. The asynchronous
  writer answers from its own flag with \<^verbatim>\<open>ErrClosed\<close> and touches nothing. The plain,
  the locked and the buffered writer have no flag: they call the closed handle again
  (the buffered writer after offering it the buffer once more), and it is the handle
  that answers \<^verbatim>\<open>os.ErrClosed\<close> without reaching the kernel.
\<close>

theorem Close_twice:
  fixes w :: "'a Writer_scheme"
  shows "(Writer_Close w os = (None, os1) \<longrightarrow>
       fst (Writer_Close w os1) = Some ErrFileClosed \<and> same_files os1 (snd (Writer_Close w os1)))
   \<and> (LockedWriter_Close lw os = Returns (None, os1) \<longrightarrow>
       (\<exists>os2. LockedWriter_Close lw os1 = Returns (Some ErrFileClosed, os2) \<and> same_files os1 os2))
   \<and> (AsynchronousWriter_Close aw os = (None, aw1, os1) \<longrightarrow>
       AsynchronousWriter_Close aw1 os1 = (Some ErrClosed, aw1, os1))
   \<and> (BufferWriter_Close bw os = (None, os1) \<longrightarrow>
       fst (BufferWriter_Close bw os1) = Some ErrFileClosed \<and> same_files os1 (snd (BufferWriter_Close bw os1)))"
proof -
  have 1: "Writer_Close w os = (None, os1) \<longrightarrow>
       fst (Writer_Close w os1) = Some ErrFileClosed \<and> same_files os1 (snd (Writer_Close w os1))"
    using file_Close_twice[of "wfile w" os os1] by (simp add: Writer_Close_def)
  have 2: "LockedWriter_Close lw os = Returns (None, os1) \<longrightarrow>
       (\<exists>os2. LockedWriter_Close lw os1 = Returns (Some ErrFileClosed, os2) \<and> same_files os1 os2)"
    using file_Close_twice[of "wfile lw" os os1]
    by (cases "file_Close (wfile lw) os1") (auto simp: LockedWriter_Close_def split: if_splits)
  have 3: "AsynchronousWriter_Close aw os = (None, aw1, os1) \<longrightarrow>
       AsynchronousWriter_Close aw1 os1 = (Some ErrClosed, aw1, os1)"
    by (auto simp: AsynchronousWriter_Close_def onClose_def split: if_splits prod.splits)
  have 4: "BufferWriter_Close bw os = (None, os1) \<longrightarrow>
       fst (BufferWriter_Close bw os1) = Some ErrFileClosed \<and> same_files os1 (snd (BufferWriter_Close bw os1))"
  proof
    assume c: "BufferWriter_Close bw os = (None, os1)"
    then have "file_Close (wfile bw) (snd (file_Write (wfile bw) (sdata (buf bw)) os)) = (None, os1)"
      by (simp add: BufferWriter_Close_def split: prod.splits)
    then obtain k fh where h: "lookup_handle (wfile bw) os1 = Some (k, fh)" "hclosed fh"
      using closed_after_Close by blast
    have "BufferWriter_Close bw os1 =
        (Some ErrFileClosed, called (CallClose (wfile bw)) (called (CallWrite (wfile bw) (sdata (buf bw))) os1))"
      using h file_Write_on_closed[OF h] file_Close_on_closed[of "wfile bw" _ k fh]
      by (simp add: BufferWriter_Close_def lookup_handle_called)
    then show "fst (BufferWriter_Close bw os1) = Some ErrFileClosed
        \<and> same_files os1 (snd (BufferWriter_Close bw os1))"
      by (simp add: same_files_called)
  qed
  from 1 2 3 4 show ?thesis by blast
qed


theorem Close_twice_witness:
  "fst (Writer_Close w_ex os_ex) = None
   \<and> fst (Writer_Close w_ex (snd (Writer_Close w_ex os_ex))) = Some ErrFileClosed
   \<and> LockedWriter_Close lw_ex os_ex = Returns (None, snd (file_Close (Some 0) os_ex))
   \<and> (\<exists>os2. LockedWriter_Close lw_ex (snd (file_Close (Some 0) os_ex)) = Returns (Some ErrFileClosed, os2))
   \<and> fst (AsynchronousWriter_Close aw_queued_ex os_ex) = None
   \<and> fst (AsynchronousWriter_Close (fst (snd (AsynchronousWriter_Close aw_queued_ex os_ex)))
            (snd (snd (AsynchronousWriter_Close aw_queued_ex os_ex)))) = Some ErrClosed
   \<and> fst (BufferWriter_Close bw_ex os_ex) = None
   \<and> fst (BufferWriter_Close bw_ex (snd (BufferWriter_Close bw_ex os_ex))) = Some ErrFileClosed"
proof -
  have w1: "Writer_Close w_ex os_ex = (None, snd (Writer_Close w_ex os_ex))"
    by (simp add: Writer_Close_def ex_defs os_defs)
  have l1: "LockedWriter_Close lw_ex os_ex = Returns (None, snd (file_Close (Some 0) os_ex))"
    by (simp add: LockedWriter_Close_def ex_defs os_defs)
  have a1: "AsynchronousWriter_Close aw_queued_ex os_ex =
      (None, fst (snd (AsynchronousWriter_Close aw_queued_ex os_ex)),
       snd (snd (AsynchronousWriter_Close aw_queued_ex os_ex)))"
    by (simp add: AsynchronousWriter_Close_def onClose_def aw_queued_ex_def ex_defs os_defs)
  have b1: "BufferWriter_Close bw_ex os_ex = (None, snd (BufferWriter_Close bw_ex os_ex))"
    by (simp add: BufferWriter_Close_def ex_defs os_defs)
  have w2: "fst (Writer_Close w_ex (snd (Writer_Close w_ex os_ex))) = Some ErrFileClosed"
    using w1 Close_twice[where w = w_ex and os = os_ex and ?os1.0 = "snd (Writer_Close w_ex os_ex)"]
    by blast
  have l2: "\<exists>os2. LockedWriter_Close lw_ex (snd (file_Close (Some 0) os_ex)) = Returns (Some ErrFileClosed, os2)"
    using l1 Close_twice[where w = w_ex and lw = lw_ex and os = os_ex and ?os1.0 = "snd (file_Close (Some 0) os_ex)"]
    by blast
  have a2: "fst (AsynchronousWriter_Close (fst (snd (AsynchronousWriter_Close aw_queued_ex os_ex)))
            (snd (snd (AsynchronousWriter_Close aw_queued_ex os_ex)))) = Some ErrClosed"
    using a1 Close_twice[where w = w_ex and aw = aw_queued_ex and os = os_ex
        and ?aw1.0 = "fst (snd (AsynchronousWriter_Close aw_queued_ex os_ex))"
        and ?os1.0 = "snd (snd (AsynchronousWriter_Close aw_queued_ex os_ex))"]
    by simp
  have b2: "fst (BufferWriter_Close bw_ex (snd (BufferWriter_Close bw_ex os_ex))) = Some ErrFileClosed"
    using b1 Close_twice[where w = w_ex and bw = bw_ex and os = os_ex and ?os1.0 = "snd (BufferWriter_Close bw_ex os_ex)"]
    by blast
  have w0: "fst (Writer_Close w_ex os_ex) = None" using w1 by (metis fst_conv)
  have a0: "fst (AsynchronousWriter_Close aw_queued_ex os_ex) = None" using a1 by (metis fst_conv)
  have b0: "fst (BufferWriter_Close bw_ex os_ex) = None" using b1 by (metis fst_conv)
  from w0 l1 a0 b0 w2 l2 a2 b2 show ?thesis by blast
qed

section \<open>The buffered writer: flush on \<^verbatim>\<open>Close\<close>\<close>

text \<open>
  C8, as the code has it: on a writer whose handle is open, \<^verbatim>\<open>Close\<close> makes exactly two
  calls, one write of the whole buffer and the close of the handle, and the handle is
  closed afterwards. The file receives the buffer, appended, exactly when the handle
  is writable and the write does not fail; otherwise the file contents stay as they
  were. The error \<^verbatim>\<open>Close\<close> returns is the outcome of the close call alone (the
  second pending outcome; the first went to the write), so a failed flush is not
  reported.
\<close>

theorem BufferWriter_Close_flush:
  assumes "wfile w = Some k" and "handles os k = Some fh" and "\<not> hclosed fh"
  shows "(case BufferWriter_Close w os of (e, os') \<Rightarrow>
      calls_of os os' = [CallWrite (wfile w) (sdata (buf w)), CallClose (wfile w)]
      \<and> handles os' k = Some (fh\<lparr>hclosed := True\<rparr>)
      \<and> e = fst (next_fault (snd (next_fault os)))
      \<and> inodes os' =
          (if hmode fh = O_RDWR_CREATE_APPEND \<and> fst (next_fault os) = None
           then (inodes os)(hino fh := inodes os (hino fh) @ sdata (buf w))
           else inodes os))"
  using assms
  by (cases "hmode fh")
     (auto simp: BufferWriter_Close_def file_Write_def file_Close_def lookup_handle_def called_def
        next_fault_def calls_of_def Let_def split: list.splits option.splits)

theorem BufferWriter_Close_flush_witness:
  "(case BufferWriter_Close (bw_ex\<lparr>buf := \<lparr>sdata = [4, 5], scap = 8\<rparr>\<rparr>) os_ex of (e, os') \<Rightarrow>
      e = None \<and> inodes os' 0 = [1, 2, 3, 4, 5]
      \<and> handles os' 0 = Some \<lparr>hino = 0, hmode = O_RDWR_CREATE_APPEND, hclosed = True\<rparr>)"
  using BufferWriter_Close_flush[of "bw_ex\<lparr>buf := \<lparr>sdata = [4, 5], scap = 8\<rparr>\<rparr>" 0 os_ex
      "\<lparr>hino = 0, hmode = O_RDWR_CREATE_APPEND, hclosed = False\<rparr>"]
  by (simp add: ex_defs next_fault_def split: prod.splits)

text \<open>
  C8, as the claim has it (every accepted byte reaches the file or \<^verbatim>\<open>Close\<close> reports
  the flush failure), fails: the writer accepts two bytes into its buffer, the write
  at \<^verbatim>\<open>Close\<close> fails for lack of space, \<^verbatim>\<open>Close\<close> returns nil, the handle is closed
  and the file still holds its three old bytes only.
\<close>

theorem BufferWriter_Close_loses_bytes:
  "(case BufferWriter_Write (\<lambda>c n. 2 * n) [4, 5] bw_ex os_full_ex of
      Returns (r, w1, os1, sp) \<Rightarrow>
        r = (2, None) \<and> sdata (buf w1) = [4, 5] \<and> inodes os1 0 = [1, 2, 3]
        \<and> fst (BufferWriter_Close w1 os1) = None
        \<and> inodes (snd (BufferWriter_Close w1 os1)) 0 = [1, 2, 3]
        \<and> handles (snd (BufferWriter_Close w1 os1)) 0
             = Some \<lparr>hino = 0, hmode = O_RDWR_CREATE_APPEND, hclosed = True\<rparr>
    | Blocks \<Rightarrow> False
    | Panics \<Rightarrow> False)"
  by (simp add: BufferWriter_Write_def BufferWriter_Close_def select_fire_def append_bytes_def
      os_full_ex_def ex_defs os_defs Let_def)

section \<open>The buffered writer: flush on \<^verbatim>\<open>Write\<close>\<close>




lemma filter_update_count:
  "i < length cs \<Longrightarrow>
     length (filter P (cs[i := c])) + (if P (cs ! i) then 1 else 0)
       = length (filter P cs) + (if P c then 1 else 0)"
proof (induction cs arbitrary: i)
  case Nil
  then show ?case by simp
next
  case (Cons x xs)
  show ?case
  proof (cases i)
    case 0
    then show ?thesis by simp
  next
    case (Suc j)
    with Cons.prems have "j < length xs" by simp
    from Cons.IH[OF this] Suc show ?thesis by simp
  qed
qed

lemma holders_at_pc:
  assumes "i < length (callers s)"
  shows "length (holders (at_pc i pc s)) + (if holds_flag (cpc (callers s ! i)) then 1 else 0)
       = length (holders s) + (if holds_flag pc then 1 else 0)"
  using filter_update_count[OF assms, of "\<lambda>c. holds_flag (cpc c)" "(callers s ! i)\<lparr>cpc := pc\<rparr>"]
  by (simp add: holders_def at_pc_def)

lemma at_pc_simps [simp]:
  "shared (at_pc i pc s) = shared s" "sys_os (at_pc i pc s) = sys_os s"
  "tasks (at_pc i pc s) = tasks s" "length (callers (at_pc i pc s)) = length (callers s)"
  by (simp_all add: at_pc_def)

lemma holders_upd [simp]:
  "holders (s\<lparr>shared := w\<rparr>) = holders s" "holders (s\<lparr>sys_os := os\<rparr>) = holders s"
  "holders (s\<lparr>tasks := ts\<rparr>) = holders s"
  by (simp_all add: holders_def)

lemma Reopen_open_only_wfile:
  "\<exists>f. fst (snd (Reopen_open target w os)) = w\<lparr>wfile := f\<rparr>"
proof (cases "os_OpenFile (absPath w) os")
  case (fields newfile err os1)
  show ?thesis
  proof (cases err)
    case None
    with fields have "fst (snd (Reopen_open target w os)) = w\<lparr>wfile := newfile\<rparr>"
      by (simp add: Reopen_open_def)
    then show ?thesis by blast
  next
    case (Some e)
    with fields have "fst (snd (Reopen_open target w os)) = w\<lparr>wfile := wfile w\<rparr>"
      by (simp add: Reopen_open_def)
    then show ?thesis by blast
  qed
qed

lemma Reopen_only_wfile:
  "\<exists>f. fst (snd (Reopen target w os)) = w\<lparr>wfile := f\<rparr>"
proof -
  define a where "a = absPath w"
  define r where "r = (if Compress (cf w) then target @ ''.tmp'' else target)"
  obtain e0 os1 where c: "file_Close (wfile w) os = (e0, os1)" by (cases "file_Close (wfile w) os")
  obtain e1 os2 where r1: "os_Rename a r os1 = (e1, os2)" by (cases "os_Rename a r os1")
  obtain e2 os3 where r2: "os_Rename a r os2 = (e2, os3)" by (cases "os_Rename a r os2")
  obtain e3 os5 where r3: "os_Rename a r (time_Sleep 10 os3) = (e3, os5)"
    by (cases "os_Rename a r (time_Sleep 10 os3)")
  obtain f e os6 where o: "os_Open a os5 = (f, e, os6)" by (cases "os_Open a os5")
  have "Reopen target w os = Reopen_open target w os2
      \<or> Reopen target w os = Reopen_open target w os3
      \<or> Reopen target w os = Reopen_open target w os5
      \<or> Reopen target w os = (None, w\<lparr>wfile := f\<rparr>, os6, None)"
    using c r1 r2 r3 o
    by (cases e1; cases e2; cases e3)
       (simp_all add: Reopen_def a_def[symmetric] r_def[symmetric] Let_def)
  with Reopen_open_only_wfile[of target w] show ?thesis by (metis fst_conv snd_conv)
qed

lemma select_fire_keeps:
  fixes w :: BufferWriter
  assumes "select_fire w os = (err, w1, os1, sp)"
  shows "swaping w1 = swaping w \<and> buf w1 = buf w \<and> cf w1 = cf w"
proof (cases "fire w")
  case Nil
  with assms show ?thesis by (simp add: select_fire_def)
next
  case (Cons filename rest)
  from Reopen_only_wfile[of filename "w\<lparr>fire := rest\<rparr>" os] obtain f where
    "fst (snd (Reopen filename (w\<lparr>fire := rest\<rparr>) os)) = w\<lparr>fire := rest, wfile := f\<rparr>"
    by auto
  with assms Cons show ?thesis by (auto simp: select_fire_def)
qed

lemma flag_inv_step:
  assumes "flag_inv s"
  shows "flag_inv (bw_step gs i s)"
proof (cases "i < length (callers s)")
  case False
  with assms show ?thesis by (simp add: bw_step_def)
next
  case True
  note h = holders_at_pc[OF True]
  show ?thesis
  proof (cases "cpc (callers s ! i)")
    case AtFire
    obtain err w1 os1 sp where sf: "select_fire (shared s) (sys_os s) = (err, w1, os1, sp)"
      by (cases "select_fire (shared s) (sys_os s)")
    have sw: "swaping w1 = swaping (shared s)" using select_fire_keeps[OF sf] by simp
    define s1 where "s1 = s\<lparr>shared := w1, sys_os := os1,
        tasks := tasks s @ (case sp of None \<Rightarrow> [] | Some t \<Rightarrow> [t])\<rparr>"
    have l: "i < length (callers s1)" "cpc (callers s1 ! i) = AtFire" "holders s1 = holders s"
      "swaping (shared s1) = swaping (shared s)"
      using True AtFire sw by (simp_all add: s1_def holders_def)
    have "bw_step gs i s = at_pc i (case err of Some e \<Rightarrow> Returned | None \<Rightarrow> AtAppend) s1"
      using True AtFire sf by (cases err) (simp_all add: bw_step_def s1_def Let_def)
    with assms l holders_at_pc[OF l(1), of "case err of Some e \<Rightarrow> Returned | None \<Rightarrow> AtAppend"]
    show ?thesis by (cases err) (auto simp: flag_inv_def)
  next
    case AtAppend
    with True assms h[of "AtStore (append_bytes gs (buf (shared s)) (cb (callers s ! i)))"]
    show ?thesis by (auto simp: bw_step_def flag_inv_def Let_def)
  next
    case (AtStore lbuf)
    define s1 where "s1 = s\<lparr>shared := (shared s)\<lparr>buf := lbuf\<rparr>\<rparr>"
    have l: "i < length (callers s1)" "cpc (callers s1 ! i) = AtStore lbuf" "holders s1 = holders s"
      "swaping (shared s1) = swaping (shared s)"
      using True AtStore by (simp_all add: s1_def holders_def)
    have "bw_step gs i s = at_pc i AtTest s1"
      using True AtStore by (simp add: bw_step_def s1_def Let_def)
    with assms l holders_at_pc[OF l(1), of AtTest]
    show ?thesis by (auto simp: flag_inv_def)
  next
    case AtTest
    with True assms h[of AtCAS] h[of Returned]
    show ?thesis by (auto simp: bw_step_def flag_inv_def Let_def)
  next
    case AtCAS
    show ?thesis
    proof (cases "swaping (shared s) = 0")
      case False
      with AtCAS True assms h[of Returned]
      show ?thesis by (auto simp: bw_step_def flag_inv_def Let_def)
    next
      case z: True
      define s1 where "s1 = s\<lparr>shared := (shared s)\<lparr>swaping := 1\<rparr>\<rparr>"
      have l: "i < length (callers s1)" "cpc (callers s1 ! i) = AtCAS" "holders s1 = holders s"
        "swaping (shared s1) = 1"
        using True AtCAS by (simp_all add: s1_def holders_def)
      have "bw_step gs i s = at_pc i AtSwap s1"
        using True AtCAS z by (simp add: bw_step_def s1_def Let_def)
      with assms z l holders_at_pc[OF l(1), of AtSwap]
      show ?thesis by (auto simp: flag_inv_def)
    qed
  next
    case AtSwap
    show ?thesis
    proof (cases "make_bytes (int64_wrap (BufferWriterThershould (cf (shared s)) * 2))")
      case None
      with AtSwap True assms h[of Panicked]
      show ?thesis by (auto simp: bw_step_def flag_inv_def Let_def)
    next
      case (Some nb)
      define s1 where "s1 = s\<lparr>shared := (shared s)\<lparr>buf := nb\<rparr>\<rparr>"
      have l: "i < length (callers s1)" "cpc (callers s1 ! i) = AtSwap" "holders s1 = holders s"
        "swaping (shared s1) = swaping (shared s)"
        using True AtSwap by (simp_all add: s1_def holders_def)
      have "bw_step gs i s = at_pc i (AtFlush (buf (shared s))) s1"
        using True AtSwap Some by (simp add: bw_step_def s1_def Let_def)
      with assms l holders_at_pc[OF l(1), of "AtFlush (buf (shared s))"]
      show ?thesis by (auto simp: flag_inv_def)
    qed
  next
    case (AtFlush ob)
    define s1 where "s1 = s\<lparr>sys_os := snd (file_Write (wfile (shared s)) (sdata ob) (sys_os s))\<rparr>"
    have l: "i < length (callers s1)" "cpc (callers s1 ! i) = AtFlush ob" "holders s1 = holders s"
      "swaping (shared s1) = swaping (shared s)"
      using True AtFlush by (simp_all add: s1_def holders_def)
    have "bw_step gs i s = at_pc i AtRelease s1"
      using True AtFlush by (simp add: bw_step_def s1_def Let_def)
    with assms l holders_at_pc[OF l(1), of AtRelease]
    show ?thesis by (auto simp: flag_inv_def)
  next
    case AtRelease
    define s1 where "s1 = s\<lparr>shared := (shared s)\<lparr>swaping := 0\<rparr>\<rparr>"
    have l: "i < length (callers s1)" "cpc (callers s1 ! i) = AtRelease" "holders s1 = holders s"
      "swaping (shared s1) = 0"
      using True AtRelease by (simp_all add: s1_def holders_def)
    have hs: "swaping (shared s) = 1 \<and> length (holders s) = 1"
    proof -
      have "callers s ! i \<in> set (holders s)"
        using True AtRelease by (simp add: holders_def)
      then have "holders s \<noteq> []" by auto
      with assms show ?thesis by (auto simp: flag_inv_def)
    qed
    have "bw_step gs i s = at_pc i Returned s1"
      using True AtRelease by (simp add: bw_step_def s1_def Let_def)
    with hs l holders_at_pc[OF l(1), of Returned]
    show ?thesis by (auto simp: flag_inv_def)
  next
    case Returned
    with True assms show ?thesis by (simp add: bw_step_def Let_def)
  next
    case Panicked
    with True assms show ?thesis by (simp add: bw_step_def Let_def)
  qed
qed

lemma flag_inv_run: "flag_inv s \<Longrightarrow> flag_inv (run gs sched s)"
  by (induction sched arbitrary: s) (simp_all add: flag_inv_step)



lemma two_holders:
  "i < j \<Longrightarrow> j < length cs \<Longrightarrow> P (cs ! i) \<Longrightarrow> P (cs ! j) \<Longrightarrow> 2 \<le> length (filter P cs)"
proof (induction cs arbitrary: i j)
  case Nil
  then show ?case by simp
next
  case (Cons x xs)
  from Cons.prems(1) obtain j' where j: "j = Suc j'" by (cases j) auto
  with Cons.prems have j': "j' < length xs" "P (xs ! j')" by simp_all
  show ?case
  proof (cases i)
    case 0
    from j' have "xs ! j' \<in> set (filter P xs)" by simp
    then have "1 \<le> length (filter P xs)" by (cases "filter P xs") auto
    with 0 Cons.prems(3) show ?thesis by simp
  next
    case (Suc i')
    with Cons.prems j have "i' < j'" "P (xs ! i')" by simp_all
    from Cons.IH[OF this(1) j'(1) this(2) j'(2)] show ?thesis by simp
  qed
qed

lemma flag_inv_exclusive:
  assumes "flag_inv s" and "i < j" and "j < length (callers s)"
  shows "\<not> (holds_flag (cpc (callers s ! i)) \<and> holds_flag (cpc (callers s ! j)))"
proof
  assume "holds_flag (cpc (callers s ! i)) \<and> holds_flag (cpc (callers s ! j))"
  with two_holders[OF assms(2,3), of "\<lambda>c. holds_flag (cpc c)"]
  have "2 \<le> length (holders s)" by (simp add: holders_def)
  with assms(1) show False by (auto simp: flag_inv_def)
qed

lemma flag_inv_start: "swaping w = 0 \<Longrightarrow> flag_inv (start w os bs)"
  by (simp add: flag_inv_def start_def holders_def filter_empty_conv)

lemma make_fresh:
  assumes "0 \<le> T" and "T < 2 ^ 62"
  shows "make_bytes (int64_wrap (T * 2)) = Some \<lparr>sdata = [], scap = nat (2 * T)\<rparr>"
  using assms by (simp add: make_bytes_def int64_wrap_def mult.commute)

section \<open>The asynchronous writer: delivery of write errors\<close>

text \<open>
  \<^verbatim>\<open>onClose\<close>, chunk by chunk: with an empty queue it returns at once; it writes the
  first chunk and on success pools it and goes on; on a failed write it attempts the
  send, and either a receiver is waiting, takes the error, and the loop pools the
  chunk and goes on, or nobody is, and it pools the chunk and returns.
\<close>

lemma onClose_empty:
  assumes "cbuf (queue w) = []"
  shows "onClose w os = (w, os)"
  using assms by (simp add: onClose_def)

lemma onClose_written:
  assumes "cbuf (queue w) = b # rest" and "file_Write (wfile w) b os = ((n, None), os1)"
  shows "onClose w os = onClose (w\<lparr>queue := (queue w)\<lparr>cbuf := rest\<rparr>, pool := b # pool w\<rparr>) os1"
  using assms by (simp add: onClose_def split: prod.splits)

lemma onClose_delivered:
  assumes "cbuf (queue w) = b # rest" and "file_Write (wfile w) b os = ((n, Some e), os1)"
    and "pollers w > 0"
  shows "onClose w os =
    onClose (w\<lparr>queue := (queue w)\<lparr>cbuf := rest\<rparr>, pool := b # pool w, pollers := pollers w - 1\<rparr>) os1"
  using assms by (simp add: onClose_def split: prod.splits)

lemma onClose_dropped:
  assumes "cbuf (queue w) = b # rest" and "file_Write (wfile w) b os = ((n, Some e), os1)"
    and "pollers w = 0"
  shows "onClose w os = (w\<lparr>queue := (queue w)\<lparr>cbuf := rest\<rparr>, pool := b # pool w\<rparr>, os1)"
  using assms by (simp add: onClose_def split: prod.splits)

lemma trace_file_Write: "trace (snd (file_Write h b os)) = trace os @ [CallWrite h b]"
  by (simp add: file_Write_def called_def next_fault_def lookup_handle_def Let_def
      split: list.splits option.splits)

lemma onClose_loop_taken:
  "\<exists>k. fst (onClose_loop h q pl n os) = drop k q
      \<and> fst (snd (onClose_loop h q pl n os)) = rev (take k q) @ pl
      \<and> trace (snd (snd (snd (onClose_loop h q pl n os)))) = trace os @ map (CallWrite h) (take k q)"
proof (induction q arbitrary: pl n os)
  case Nil
  show ?case by simp
next
  case (Cons b rest)
  obtain r err os1 where w: "file_Write h b os = ((r, err), os1)"
    by (cases "file_Write h b os") auto
  have t: "trace os1 = trace os @ [CallWrite h b]"
    using trace_file_Write[of h b os] w by simp
  show ?case
  proof (cases "err = None \<or> n > 0")
    case True
    then obtain n' where l: "onClose_loop h (b # rest) pl n os = onClose_loop h rest (b # pl) n' os1"
      using w by (cases err) auto
    from Cons.IH[of "b # pl" n' os1] obtain k where
      "fst (onClose_loop h rest (b # pl) n' os1) = drop k rest"
      "fst (snd (onClose_loop h rest (b # pl) n' os1)) = rev (take k rest) @ b # pl"
      "trace (snd (snd (snd (onClose_loop h rest (b # pl) n' os1)))) = trace os1 @ map (CallWrite h) (take k rest)"
      by blast
    with l t show ?thesis by (intro exI[of _ "Suc k"]) simp
  next
    case False
    with w have "onClose_loop h (b # rest) pl n os = (rest, b # pl, n, os1)"
      by (cases err) auto
    with t show ?thesis by (intro exI[of _ "Suc 0"]) simp
  qed
qed


text \<open>
  C5, as the code has it. (1) When the drain task takes a chunk and the write fails,
  it sends the error with a plain, blocking send: with a receiver waiting on
  \<^verbatim>\<open>errChan\<close> the error is delivered and the chunk goes back to the pool; with none,
  the task stays at the send, the chunk is not in the pool, and the task cannot move
  whatever else happens to the world. (2) At the send the task moves exactly when a
  receiver waits; a receiver from outside that arrives takes the error. (3) A
  \<^verbatim>\<open>Write\<close> on the open writer with no rotation pending takes the error and returns
  it with count 0. (4) Only after the send does the task put the chunk into the pool.
  (5) The non-blocking attempt is in \<^verbatim>\<open>onClose\<close>, which always returns: it writes
  the queued chunks in order and pools each one it has written; after a failed write
  it goes on when a receiver takes the error, and otherwise drops the error, pools the
  chunk and returns, leaving the rest in the queue. The calls it makes are exactly
  the writes of the chunks it took.
\<close>

theorem writer_error_delivery:
  "(drain w = AtSelect \<and> cbuf (queue w) = b # rest \<and> \<not> (ctx_closed w \<and> pick)
      \<and> snd (fst (file_Write (wfile w) b os)) = Some e \<longrightarrow>
      (case writer_step pick w os of
         None \<Rightarrow> False
       | Some (w1, os1) \<Rightarrow>
           cbuf (queue w1) = rest \<and> os1 = snd (file_Write (wfile w) b os) \<and>
           (if pollers w > 0
            then drain w1 = AtSelect \<and> pool w1 = b # pool w \<and> pollers w1 = pollers w - 1
            else drain w1 = AtSend e b \<and> pool w1 = pool w
                 \<and> (\<forall>p os'. writer_step p w1 os' = None))))
   \<and> (drain w = AtSend e b \<longrightarrow>
        writer_step pick w os =
          (if pollers w > 0 then Some (w\<lparr>drain := AtPut b, pollers := pollers w - 1\<rparr>, os)
           else None)
        \<and> outside_receive w = (Some e, w\<lparr>drain := AtPut b\<rparr>))
   \<and> (drain w = AtSend e b \<and> closed w = 0 \<and> fire w = [] \<longrightarrow>
        AsynchronousWriter_Write BufferSize pick_err x w os
          = Returns ((0, Some e), w\<lparr>drain := AtPut b\<rparr>, os, None))
   \<and> (drain w = AtPut b \<longrightarrow>
        writer_step pick w os = Some (w\<lparr>drain := AtSelect, pool := b # pool w\<rparr>, os))
   \<and> (cbuf (queue w) = [] \<longrightarrow> onClose w os = (w, os))
   \<and> (cbuf (queue w) = b # rest \<and> file_Write (wfile w) b os = ((n, None), os2) \<longrightarrow>
        onClose w os =
          onClose (w\<lparr>queue := (queue w)\<lparr>cbuf := rest\<rparr>, pool := b # pool w\<rparr>) os2)
   \<and> (cbuf (queue w) = b # rest \<and> file_Write (wfile w) b os = ((n, Some e), os2)
        \<and> pollers w > 0 \<longrightarrow>
        onClose w os =
          onClose (w\<lparr>queue := (queue w)\<lparr>cbuf := rest\<rparr>, pool := b # pool w,
                     pollers := pollers w - 1\<rparr>) os2)
   \<and> (cbuf (queue w) = b # rest \<and> file_Write (wfile w) b os = ((n, Some e), os2)
        \<and> pollers w = 0 \<longrightarrow>
        onClose w os = (w\<lparr>queue := (queue w)\<lparr>cbuf := rest\<rparr>, pool := b # pool w\<rparr>, os2))
   \<and> (\<exists>k. cbuf (queue (fst (onClose w os))) = drop k (cbuf (queue w))
          \<and> pool (fst (onClose w os)) = rev (take k (cbuf (queue w))) @ pool w
          \<and> calls_of os (snd (onClose w os)) = map (CallWrite (wfile w)) (take k (cbuf (queue w))))"
proof -
  have a: "drain w = AtSelect \<and> cbuf (queue w) = b # rest \<and> \<not> (ctx_closed w \<and> pick)
      \<and> snd (fst (file_Write (wfile w) b os)) = Some e \<longrightarrow>
      (case writer_step pick w os of
         None \<Rightarrow> False
       | Some (w1, os1) \<Rightarrow>
           cbuf (queue w1) = rest \<and> os1 = snd (file_Write (wfile w) b os) \<and>
           (if pollers w > 0
            then drain w1 = AtSelect \<and> pool w1 = b # pool w \<and> pollers w1 = pollers w - 1
            else drain w1 = AtSend e b \<and> pool w1 = pool w
                 \<and> (\<forall>p os'. writer_step p w1 os' = None)))"
    by (cases "file_Write (wfile w) b os") (auto simp: writer_step_def Let_def)
  have b: "drain w = AtSend e b \<longrightarrow>
        writer_step pick w os =
          (if pollers w > 0 then Some (w\<lparr>drain := AtPut b, pollers := pollers w - 1\<rparr>, os)
           else None)
        \<and> outside_receive w = (Some e, w\<lparr>drain := AtPut b\<rparr>)"
    by (simp add: writer_step_def outside_receive_def)
  have c: "drain w = AtSend e b \<and> closed w = 0 \<and> fire w = [] \<longrightarrow>
        AsynchronousWriter_Write BufferSize pick_err x w os
          = Returns ((0, Some e), w\<lparr>drain := AtPut b\<rparr>, os, None)"
    by (simp add: AsynchronousWriter_Write_def)
  have d: "drain w = AtPut b \<longrightarrow>
        writer_step pick w os = Some (w\<lparr>drain := AtSelect, pool := b # pool w\<rparr>, os)"
    by (simp add: writer_step_def)
  have o1: "cbuf (queue w) = [] \<longrightarrow> onClose w os = (w, os)"
    using onClose_empty by blast
  have o2: "cbuf (queue w) = b # rest \<and> file_Write (wfile w) b os = ((n, None), os2) \<longrightarrow>
        onClose w os =
          onClose (w\<lparr>queue := (queue w)\<lparr>cbuf := rest\<rparr>, pool := b # pool w\<rparr>) os2"
    using onClose_written by blast
  have o3: "cbuf (queue w) = b # rest \<and> file_Write (wfile w) b os = ((n, Some e), os2)
        \<and> pollers w > 0 \<longrightarrow>
        onClose w os =
          onClose (w\<lparr>queue := (queue w)\<lparr>cbuf := rest\<rparr>, pool := b # pool w,
                     pollers := pollers w - 1\<rparr>) os2"
    using onClose_delivered by blast
  have o4: "cbuf (queue w) = b # rest \<and> file_Write (wfile w) b os = ((n, Some e), os2)
        \<and> pollers w = 0 \<longrightarrow>
        onClose w os = (w\<lparr>queue := (queue w)\<lparr>cbuf := rest\<rparr>, pool := b # pool w\<rparr>, os2)"
    using onClose_dropped by blast
  have g: "\<exists>k. cbuf (queue (fst (onClose w os))) = drop k (cbuf (queue w))
          \<and> pool (fst (onClose w os)) = rev (take k (cbuf (queue w))) @ pool w
          \<and> calls_of os (snd (onClose w os)) = map (CallWrite (wfile w)) (take k (cbuf (queue w)))"
    using onClose_loop_taken[of "wfile w" "cbuf (queue w)" "pool w" "pollers w" os]
    by (auto simp: onClose_def calls_of_def split: prod.splits)
  from a b c d o1 o2 o3 o4 g show ?thesis by blast
qed


theorem writer_error_delivery_witness:
  "drain aw_queued_ex = AtSelect \<and> cbuf (queue aw_queued_ex) = [[4, 5]]
   \<and> snd (fst (file_Write (wfile aw_queued_ex) [4, 5] os_full_ex)) = Some (Errno 28)
   \<and> (case writer_step False aw_queued_ex os_full_ex of
         None \<Rightarrow> False
       | Some (w1, os1) \<Rightarrow> drain w1 = AtSend (Errno 28) [4, 5] \<and> pool w1 = pool aw_queued_ex)
   \<and> drain aw_waiting_ex = AtSend (Errno 28) [4, 5] \<and> closed aw_waiting_ex = 0
   \<and> fire aw_waiting_ex = [] \<and> pollers aw_waiting_ex = 0
   \<and> writer_step False aw_waiting_ex os_ex = None
   \<and> outside_receive aw_waiting_ex = (Some (Errno 28), aw_waiting_ex\<lparr>drain := AtPut [4, 5]\<rparr>)
   \<and> AsynchronousWriter_Write 4 False [6] aw_waiting_ex os_ex
        = Returns ((0, Some (Errno 28)), aw_waiting_ex\<lparr>drain := AtPut [4, 5]\<rparr>, os_ex, None)
   \<and> writer_step False (aw_waiting_ex\<lparr>drain := AtPut [4, 5]\<rparr>) os_ex
        = Some (aw_waiting_ex\<lparr>drain := AtSelect, pool := [4, 5] # pool aw_waiting_ex\<rparr>, os_ex)
   \<and> onClose aw_queued_ex os_full_ex =
        (aw_queued_ex\<lparr>queue := (queue aw_queued_ex)\<lparr>cbuf := []\<rparr>, pool := [4, 5] # pool aw_queued_ex\<rparr>,
         snd (file_Write (wfile aw_queued_ex) [4, 5] os_full_ex))"
proof -
  have h1: "drain aw_queued_ex = AtSelect \<and> cbuf (queue aw_queued_ex) = [4, 5] # []
      \<and> \<not> (ctx_closed aw_queued_ex \<and> False)
      \<and> snd (fst (file_Write (wfile aw_queued_ex) [4, 5] os_full_ex)) = Some (Errno 28)"
    by (simp add: aw_queued_ex_def os_full_ex_def ex_defs os_defs)
  have p: "pollers aw_queued_ex = 0"
    by (simp add: aw_queued_ex_def ex_defs)
  have c1: "(case writer_step False aw_queued_ex os_full_ex of
         None \<Rightarrow> False
       | Some (w1, os1) \<Rightarrow> drain w1 = AtSend (Errno 28) [4, 5] \<and> pool w1 = pool aw_queued_ex)"
    using h1 p writer_error_delivery[where w = aw_queued_ex and b = "[4, 5]" and rest = "[]"
        and pick = False and os = os_full_ex and e = "Errno 28" and n = 0 and ?os2.0 = os_ex
        and BufferSize = 4 and pick_err = False and x = "[6]"]
    by (auto split: option.splits)
  have h2: "drain aw_waiting_ex = AtSend (Errno 28) [4, 5] \<and> closed aw_waiting_ex = 0
      \<and> fire aw_waiting_ex = []"
    by (simp add: aw_waiting_ex_def ex_defs)
  have p2: "pollers aw_waiting_ex = 0"
    by (simp add: aw_waiting_ex_def ex_defs)
  have c2: "writer_step False aw_waiting_ex os_ex = None
      \<and> outside_receive aw_waiting_ex = (Some (Errno 28), aw_waiting_ex\<lparr>drain := AtPut [4, 5]\<rparr>)
      \<and> AsynchronousWriter_Write 4 False [6] aw_waiting_ex os_ex
        = Returns ((0, Some (Errno 28)), aw_waiting_ex\<lparr>drain := AtPut [4, 5]\<rparr>, os_ex, None)"
    using h2 p2 writer_error_delivery[where w = aw_waiting_ex and b = "[4, 5]" and e = "Errno 28"
        and os = os_ex and BufferSize = 4 and pick_err = False and x = "[6]" and pick = False
        and n = 0 and ?os2.0 = os_ex and rest = "[]"]
    by simp
  have h3: "drain (aw_waiting_ex\<lparr>drain := AtPut [4, 5]\<rparr>) = AtPut [4, 5]" by simp
  have c3: "writer_step False (aw_waiting_ex\<lparr>drain := AtPut [4, 5]\<rparr>) os_ex
        = Some (aw_waiting_ex\<lparr>drain := AtSelect, pool := [4, 5] # pool aw_waiting_ex\<rparr>, os_ex)"
    using h3 writer_error_delivery[where w = "aw_waiting_ex\<lparr>drain := AtPut [4, 5]\<rparr>"
        and b = "[4, 5]" and os = os_ex and pick = False and e = "Errno 28" and n = 0
        and ?os2.0 = os_ex and rest = "[]" and BufferSize = 4 and pick_err = False and x = "[6]"]
    by simp
  have h4: "cbuf (queue aw_queued_ex) = [4, 5] # []
      \<and> file_Write (wfile aw_queued_ex) [4, 5] os_full_ex
          = ((0, Some (Errno 28)), snd (file_Write (wfile aw_queued_ex) [4, 5] os_full_ex))
      \<and> pollers aw_queued_ex = 0"
    by (simp add: aw_queued_ex_def os_full_ex_def ex_defs os_defs)
  have c4: "onClose aw_queued_ex os_full_ex =
        (aw_queued_ex\<lparr>queue := (queue aw_queued_ex)\<lparr>cbuf := []\<rparr>, pool := [4, 5] # pool aw_queued_ex\<rparr>,
         snd (file_Write (wfile aw_queued_ex) [4, 5] os_full_ex))"
    using h4 writer_error_delivery[where w = aw_queued_ex and b = "[4, 5]" and rest = "[]"
        and os = os_full_ex and e = "Errno 28" and n = 0
        and ?os2.0 = "snd (file_Write (wfile aw_queued_ex) [4, 5] os_full_ex)"
        and pick = False and BufferSize = 4 and pick_err = False and x = "[6]"]
    by blast
  from h1 c1 h2 p2 c2 c3 c4 show ?thesis by simp
qed

text \<open>
  C5, as the claim has it (a non-blocking send, the buffer reclaimed even when the
  error is dropped, never waiting for delivery), fails for the drain task: the write
  of the queued chunk fails, nobody receives on \<^verbatim>\<open>errChan\<close>, and the task is left at
  its send with the chunk, the pool still empty, unable to move.
\<close>

theorem writer_waits_at_send:
  "(case writer_step False aw_queued_ex os_full_ex of
      None \<Rightarrow> False
    | Some (w1, os1) \<Rightarrow>
        drain w1 = AtSend (Errno 28) [4, 5] \<and> pool w1 = [] \<and> cbuf (queue w1) = []
        \<and> inodes os1 0 = [1, 2, 3]
        \<and> writer_step False w1 os1 = None \<and> writer_step True w1 os1 = None)"
  by (simp add: writer_step_def aw_queued_ex_def os_full_ex_def ex_defs os_defs Let_def)

section \<open>Compression in the background task\<close>

text \<open>
  Which calls touch a directory entry, and what \<^verbatim>\<open>CompressFile\<close> does to the temporary
  file on each of its paths; then its run when the calls up to the copy succeed.
\<close>

lemma names_os_OpenFile:
  "os_OpenFile p os = (h, e, os') \<Longrightarrow> q \<noteq> p \<Longrightarrow> names os' q = names os q"
  by (auto simp: os_OpenFile_def called_def next_fault_def new_handle_def
      split: list.splits option.splits)

lemma names_os_Open: "os_Open p os = (h, e, os') \<Longrightarrow> names os' = names os"
  by (auto simp: os_Open_def called_def next_fault_def new_handle_def
      split: list.splits option.splits)

lemma names_file_Seek: "file_Seek h os = (e, os') \<Longrightarrow> names os' = names os"
  by (auto simp: file_Seek_def called_def next_fault_def lookup_handle_def Let_def
      split: list.splits option.splits if_splits)

lemma names_io_Copy: "io_Copy h os = (r, os') \<Longrightarrow> names os' = names os"
  by (auto simp: io_Copy_def called_def next_fault_def lookup_handle_def Let_def
      split: list.splits option.splits if_splits)

lemma names_file_Close: "file_Close h os = (e, os') \<Longrightarrow> names os' = names os"
  by (auto simp: file_Close_def called_def next_fault_def lookup_handle_def Let_def
      split: list.splits option.splits if_splits)

lemma names_file_Write: "file_Write h b os = (r, os') \<Longrightarrow> names os' = names os"
  by (auto simp: file_Write_def called_def next_fault_def lookup_handle_def Let_def
      split: list.splits option.splits if_splits)

lemma names_os_Remove:
  "os_Remove p os = (e, os') \<Longrightarrow>
     (q \<noteq> p \<longrightarrow> names os' q = names os q)
     \<and> (e = None \<longrightarrow> names os' p = None) \<and> (e \<noteq> None \<longrightarrow> names os' = names os)"
  by (auto simp: os_Remove_def called_def next_fault_def split: list.splits option.splits)

lemma names_CompressFile_deferred:
  "names (CompressFile_deferred gz h rcv os) = names os"
proof -
  obtain r os1 where w: "file_Write h (gz rcv) os = (r, os1)" by (cases "file_Write h (gz rcv) os")
  obtain e os2 where c: "file_Close h os1 = (e, os2)" by (cases "file_Close h os1")
  from w c names_file_Write[OF w] names_file_Close[OF c] show ?thesis
    by (simp add: CompressFile_deferred_def)
qed

lemma CompressFile_tmp:
  "(fst (CompressFile gz target os) = None \<longrightarrow>
      names (snd (CompressFile gz target os)) (target @ ''.tmp'') = None)
   \<and> (fst (CompressFile gz target os) \<noteq> None \<longrightarrow>
      names (snd (CompressFile gz target os)) (target @ ''.tmp'') = names os (target @ ''.tmp''))"
proof -
  let ?tmp = "target @ ''.tmp''"
  have ne: "?tmp \<noteq> target" by simp
  obtain cmpfile e1 os1 where o1: "os_OpenFile target os = (cmpfile, e1, os1)"
    by (cases "os_OpenFile target os")
  have n1: "names os1 ?tmp = names os ?tmp" using names_os_OpenFile[OF o1 ne] .
  show ?thesis
  proof (cases e1)
    case (Some x)
    obtain ec osc where c: "file_Close cmpfile os1 = (ec, osc)" by (cases "file_Close cmpfile os1")
    from Some o1 c names_file_Close[OF c] n1 show ?thesis by (simp add: CompressFile_def)
  next
    case None
    obtain src e2 os2 where o2: "os_Open ?tmp os1 = (src, e2, os2)" by (cases "os_Open ?tmp os1")
    have n2: "names os2 = names os1" using names_os_Open[OF o2] .
    show ?thesis
    proof (cases e2)
      case (Some x)
      with None o1 o2 n1 n2 show ?thesis
        by (simp add: CompressFile_def names_CompressFile_deferred)
    next
      case e2n: None
      obtain e3 os3 where o3: "file_Seek src os2 = (e3, os3)" by (cases "file_Seek src os2")
      have n3: "names os3 = names os2" using names_file_Seek[OF o3] .
      show ?thesis
      proof (cases e3)
        case (Some x)
        with None e2n o1 o2 o3 n1 n2 n3 show ?thesis
          by (simp add: CompressFile_def names_CompressFile_deferred)
      next
        case e3n: None
        obtain rcv e4 os4 where o4: "io_Copy src os3 = ((rcv, e4), os4)"
          by (cases "io_Copy src os3") auto
        have n4: "names os4 = names os3" using names_io_Copy[OF o4] .
        show ?thesis
        proof (cases e4)
          case (Some x)
          obtain e5 os5 where o5: "file_Close cmpfile os4 = (e5, os5)" by (cases "file_Close cmpfile os4")
          obtain e6 os6 where o6: "os_Remove target os5 = (e6, os6)" by (cases "os_Remove target os5")
          have n5: "names os5 = names os4" using names_file_Close[OF o5] .
          have n6: "names os6 ?tmp = names os5 ?tmp" using names_os_Remove[OF o6, of ?tmp] ne by simp
          from Some None e2n e3n o1 o2 o3 o4 o5 o6 n1 n2 n3 n4 n5 n6 show ?thesis
            by (cases e6) (simp_all add: CompressFile_def names_CompressFile_deferred)
        next
          case e4n: None
          obtain e5 os5 where o5: "file_Close src os4 = (e5, os5)" by (cases "file_Close src os4")
          obtain e6 os6 where o6: "os_Remove ?tmp os5 = (e6, os6)" by (cases "os_Remove ?tmp os5")
          have n5: "names os5 = names os4" using names_file_Close[OF o5] .
          note n6 = names_os_Remove[OF o6, of ?tmp]
          from None e2n e3n e4n o1 o2 o3 o4 o5 o6 n1 n2 n3 n4 n5 n6 show ?thesis
            by (cases e6) (simp_all add: CompressFile_def names_CompressFile_deferred)
        qed
      qed
    qed
  qed
qed


lemma next_fault_eq: "next_fault os = (nth_fault (faults os) 0, os\<lparr>faults := tl (faults os)\<rparr>)"
  by (cases "faults os") (simp_all add: next_fault_def)

lemma nth_fault_tl: "nth_fault (tl fs) k = nth_fault fs (Suc k)"
  by (cases fs) simp_all

lemmas os_step_defs =
  called_def next_fault_eq nth_fault_tl os_Rename_def os_Remove_def new_handle_def os_OpenFile_def
  os_Open_def lookup_handle_def file_Close_def file_Write_def file_Seek_def io_Copy_def
  time_Sleep_def log_Println_def

lemma CompressFile_all_ok:
  assumes "names os (target @ ''.tmp'') = Some i" and "i < next_ino os"
    and "fault_at 0 os = None" and "fault_at 1 os = None" and "fault_at 2 os = None"
    and "fault_at 3 os = None" and "fault_at 5 os = None" and "fault_at 6 os = None"
  shows "(case CompressFile gz target os of (err, os') \<Rightarrow>
      err = None \<and> names os' (target @ ''.tmp'') = None
      \<and> (case names os target of
           None \<Rightarrow> names os' target = Some (next_ino os)
                    \<and> inodes os' (next_ino os) = gz (inodes os i)
         | Some j \<Rightarrow> names os' target = Some j
                    \<and> inodes os' j = inodes os j @ gz (inodes os i)))"
proof -
  have f: "nth_fault (faults os) 0 = None" "nth_fault (faults os) (Suc 0) = None"
    "nth_fault (faults os) (Suc (Suc 0)) = None" "nth_fault (faults os) (Suc (Suc (Suc 0))) = None"
    "nth_fault (faults os) (Suc (Suc (Suc (Suc (Suc 0))))) = None"
    "nth_fault (faults os) (Suc (Suc (Suc (Suc (Suc (Suc 0)))))) = None"
    using assms(3-8) by (simp_all add: fault_at_def eval_nat_numeral)
  show ?thesis
    using assms(1,2) f
    by (cases "names os target")
       (simp_all add: CompressFile_def CompressFile_deferred_def os_step_defs Let_def)
qed


lemma CompressFile_copy_fails:
  assumes "names os (target @ ''.tmp'') = Some i" and "i < next_ino os"
    and "fault_at 0 os = None" and "fault_at 1 os = None" and "fault_at 2 os = None"
    and "fault_at 3 os = Some e"
  shows "(case CompressFile gz target os of (err, os') \<Rightarrow>
      names os' (target @ ''.tmp'') = Some i \<and> inodes os' i = inodes os i
      \<and> calls_of os os' =
          [CallOpenFile target, CallOpen (target @ ''.tmp''),
           CallSeek (Some (Suc (next_handle os))), CallCopy (Some (Suc (next_handle os))),
           CallClose (Some (next_handle os)), CallRemove target,
           CallWrite (Some (next_handle os)) (gz []), CallClose (Some (next_handle os))]
      \<and> (case fault_at 5 os of
           None \<Rightarrow> err = Some e \<and> names os' target = None
         | Some e' \<Rightarrow> err = Some e' \<and> names os' target \<noteq> None))"
proof -
  have f: "nth_fault (faults os) 0 = None" "nth_fault (faults os) (Suc 0) = None"
    "nth_fault (faults os) (Suc (Suc 0)) = None" "nth_fault (faults os) (Suc (Suc (Suc 0))) = Some e"
    using assms(3-6) by (simp_all add: fault_at_def eval_nat_numeral)
  have g: "fault_at 5 os = nth_fault (faults os) (Suc (Suc (Suc (Suc (Suc 0)))))"
    by (simp add: fault_at_def eval_nat_numeral)
  show ?thesis
    using assms(1,2) f unfolding g
    by (cases "names os target"; cases "nth_fault (faults os) (Suc (Suc (Suc (Suc (Suc 0)))))")
       (simp_all add: CompressFile_def CompressFile_deferred_def os_step_defs Let_def calls_of_def)
qed

lemma Reopen_go_logs:
  assumes "Compress (cf w)" and "fst (CompressFile gz target os) = Some e"
  shows "Reopen_go gz target w os = Some (w, log_Println e (snd (CompressFile gz target os)))"
  using assms by (cases "CompressFile gz target os") (simp add: Reopen_go_def)


text \<open>
  C9, as the code has it. Let the rotated file be \<open>target.tmp\<close>. (1) When none of
  the calls whose result the code uses fails (opening both files, the seek, the copy,
  the removal of the temporary file and the write of the gzip stream at the deferred
  close), \<^verbatim>\<open>CompressFile\<close> returns nil, the temporary file is gone, and \<open>target\<close>
  holds the gzip stream of the rotated bytes, appended to what a \<open>target\<close> that
  already existed held before. (2) When the copy fails, \<^verbatim>\<open>CompressFile\<close> closes the
  target and calls \<^verbatim>\<open>os.Remove\<close> on it: when that call succeeds the target is gone
  and the copy's error is returned, when it fails its own error is returned and the
  target stays; the temporary file and its bytes are kept. (3) On every path the
  temporary file is removed when \<^verbatim>\<open>CompressFile\<close> returns nil and is left as it was
  when \<^verbatim>\<open>CompressFile\<close> returns an error. (4) The background task logs an error of
  \<^verbatim>\<open>CompressFile\<close> and ends, leaving the writer as it is; after nil it goes on to
  retention. \<^verbatim>\<open>Reopen\<close> itself has returned nil to the write path.
\<close>

theorem CompressFile_outcomes:
  "(names os (target @ ''.tmp'') = Some i \<and> i < next_ino os
      \<and> fault_at 0 os = None \<and> fault_at 1 os = None \<and> fault_at 2 os = None
      \<and> fault_at 3 os = None \<and> fault_at 5 os = None \<and> fault_at 6 os = None \<longrightarrow>
      (case CompressFile gz target os of (err, os') \<Rightarrow>
         err = None \<and> names os' (target @ ''.tmp'') = None
         \<and> (case names os target of
              None \<Rightarrow> names os' target = Some (next_ino os)
                       \<and> inodes os' (next_ino os) = gz (inodes os i)
            | Some j \<Rightarrow> names os' target = Some j
                       \<and> inodes os' j = inodes os j @ gz (inodes os i))))
   \<and> (names os (target @ ''.tmp'') = Some i \<and> i < next_ino os
      \<and> fault_at 0 os = None \<and> fault_at 1 os = None \<and> fault_at 2 os = None
      \<and> fault_at 3 os = Some e \<longrightarrow>
      (case CompressFile gz target os of (err, os') \<Rightarrow>
         names os' (target @ ''.tmp'') = Some i \<and> inodes os' i = inodes os i
         \<and> calls_of os os' =
             [CallOpenFile target, CallOpen (target @ ''.tmp''),
              CallSeek (Some (Suc (next_handle os))), CallCopy (Some (Suc (next_handle os))),
              CallClose (Some (next_handle os)), CallRemove target,
              CallWrite (Some (next_handle os)) (gz []), CallClose (Some (next_handle os))]
         \<and> (case fault_at 5 os of
              None \<Rightarrow> err = Some e \<and> names os' target = None
            | Some e' \<Rightarrow> err = Some e' \<and> names os' target \<noteq> None)))
   \<and> (fst (CompressFile gz target os) = None \<longrightarrow>
        names (snd (CompressFile gz target os)) (target @ ''.tmp'') = None)
   \<and> (fst (CompressFile gz target os) \<noteq> None \<longrightarrow>
        names (snd (CompressFile gz target os)) (target @ ''.tmp'') = names os (target @ ''.tmp''))
   \<and> (Compress (cf w) \<and> fst (CompressFile gz target os) = Some e \<longrightarrow>
        Reopen_go gz target w os = Some (w, log_Println e (snd (CompressFile gz target os))))
   \<and> (Compress (cf w) \<and> fst (CompressFile gz target os) = None \<longrightarrow>
        Reopen_go gz target w os =
          (if MaxRemain (cf w) > 0 then retry target w (snd (CompressFile gz target os))
           else Some (w, snd (CompressFile gz target os))))
   \<and> fst (Reopen target w os) = None"
proof (intro conjI impI)
  assume "names os (target @ ''.tmp'') = Some i \<and> i < next_ino os
      \<and> fault_at 0 os = None \<and> fault_at 1 os = None \<and> fault_at 2 os = None
      \<and> fault_at 3 os = None \<and> fault_at 5 os = None \<and> fault_at 6 os = None"
  then show "case CompressFile gz target os of (err, os') \<Rightarrow>
         err = None \<and> names os' (target @ ''.tmp'') = None
         \<and> (case names os target of
              None \<Rightarrow> names os' target = Some (next_ino os)
                       \<and> inodes os' (next_ino os) = gz (inodes os i)
            | Some j \<Rightarrow> names os' target = Some j
                       \<and> inodes os' j = inodes os j @ gz (inodes os i))"
    using CompressFile_all_ok[of os target i gz] by simp
next
  assume "names os (target @ ''.tmp'') = Some i \<and> i < next_ino os
      \<and> fault_at 0 os = None \<and> fault_at 1 os = None \<and> fault_at 2 os = None
      \<and> fault_at 3 os = Some e"
  then show "case CompressFile gz target os of (err, os') \<Rightarrow>
         names os' (target @ ''.tmp'') = Some i \<and> inodes os' i = inodes os i
         \<and> calls_of os os' =
             [CallOpenFile target, CallOpen (target @ ''.tmp''),
              CallSeek (Some (Suc (next_handle os))), CallCopy (Some (Suc (next_handle os))),
              CallClose (Some (next_handle os)), CallRemove target,
              CallWrite (Some (next_handle os)) (gz []), CallClose (Some (next_handle os))]
         \<and> (case fault_at 5 os of
              None \<Rightarrow> err = Some e \<and> names os' target = None
            | Some e' \<Rightarrow> err = Some e' \<and> names os' target \<noteq> None)"
    using CompressFile_copy_fails[of os target i e gz] by simp
next
  assume "fst (CompressFile gz target os) = None"
  then show "names (snd (CompressFile gz target os)) (target @ ''.tmp'') = None"
    using CompressFile_tmp[of gz target os] by blast
next
  assume "fst (CompressFile gz target os) \<noteq> None"
  then show "names (snd (CompressFile gz target os)) (target @ ''.tmp'') = names os (target @ ''.tmp'')"
    using CompressFile_tmp[of gz target os] by blast
next
  assume "Compress (cf w) \<and> fst (CompressFile gz target os) = Some e"
  then show "Reopen_go gz target w os = Some (w, log_Println e (snd (CompressFile gz target os)))"
    using Reopen_go_logs[of w gz target os e] by simp
next
  assume "Compress (cf w) \<and> fst (CompressFile gz target os) = None"
  then show "Reopen_go gz target w os =
          (if MaxRemain (cf w) > 0 then retry target w (snd (CompressFile gz target os))
           else Some (w, snd (CompressFile gz target os)))"
    by (cases "CompressFile gz target os") (simp add: Reopen_go_def)
next
  show "fst (Reopen target w os) = None" by (rule Reopen_nil)
qed


theorem CompressFile_outcomes_witness:
  "(case CompressFile gz_ex ''app.1'' os_rotated_ex of (err, os') \<Rightarrow>
      err = None \<and> names os' ''app.1.tmp'' = None \<and> names os' ''app.1'' = Some 2
      \<and> inodes os' 2 = [31, 139, 1, 2, 3])
   \<and> (case CompressFile gz_ex ''app.1'' os_rotated_bad_ex of (err, os') \<Rightarrow>
      err = Some (Errno 5) \<and> names os' ''app.1'' = None \<and> names os' ''app.1.tmp'' = Some 0
      \<and> inodes os' 0 = [1, 2, 3])
   \<and> (case CompressFile gz_ex ''app.1'' os_remove_fails_ex of (err, os') \<Rightarrow>
      err = Some (Errno 13) \<and> names os' ''app.1'' \<noteq> None \<and> names os' ''app.1.tmp'' = Some 0)
   \<and> Reopen_go gz_ex ''app.1'' w_gz_ex os_rotated_bad_ex =
       Some (w_gz_ex, log_Println (Errno 5) (snd (CompressFile gz_ex ''app.1'' os_rotated_bad_ex)))"
proof -
  have h1: "names os_rotated_ex (''app.1'' @ ''.tmp'') = Some 0 \<and> 0 < next_ino os_rotated_ex
      \<and> fault_at 0 os_rotated_ex = None \<and> fault_at 1 os_rotated_ex = None
      \<and> fault_at 2 os_rotated_ex = None \<and> fault_at 3 os_rotated_ex = None
      \<and> fault_at 5 os_rotated_ex = None \<and> fault_at 6 os_rotated_ex = None"
    by (simp add: os_rotated_ex_def fault_at_def)
  have n1: "names os_rotated_ex ''app.1'' = None" "next_ino os_rotated_ex = 2"
    "inodes os_rotated_ex 0 = [1, 2, 3]"
    by (simp_all add: os_rotated_ex_def)
  have c1: "(case CompressFile gz_ex ''app.1'' os_rotated_ex of (err, os') \<Rightarrow>
      err = None \<and> names os' ''app.1.tmp'' = None \<and> names os' ''app.1'' = Some 2
      \<and> inodes os' 2 = [31, 139, 1, 2, 3])"
    using h1 n1 CompressFile_outcomes[where os = os_rotated_ex and target = "''app.1''" and i = 0
        and gz = gz_ex and w = w_gz_ex and e = "Errno 5"]
    by (simp add: gz_ex_def split: prod.splits)
  have h2: "names os_rotated_bad_ex (''app.1'' @ ''.tmp'') = Some 0 \<and> 0 < next_ino os_rotated_bad_ex
      \<and> fault_at 0 os_rotated_bad_ex = None \<and> fault_at 1 os_rotated_bad_ex = None
      \<and> fault_at 2 os_rotated_bad_ex = None \<and> fault_at 3 os_rotated_bad_ex = Some (Errno 5)"
    by (simp add: os_rotated_bad_ex_def os_rotated_ex_def fault_at_def)
  have n2: "fault_at 5 os_rotated_bad_ex = None" "inodes os_rotated_bad_ex 0 = [1, 2, 3]"
    by (simp_all add: os_rotated_bad_ex_def os_rotated_ex_def fault_at_def)
  have c2: "(case CompressFile gz_ex ''app.1'' os_rotated_bad_ex of (err, os') \<Rightarrow>
      err = Some (Errno 5) \<and> names os' ''app.1'' = None \<and> names os' ''app.1.tmp'' = Some 0
      \<and> inodes os' 0 = [1, 2, 3])"
    using h2 n2 CompressFile_outcomes[where os = os_rotated_bad_ex and target = "''app.1''" and i = 0
        and gz = gz_ex and e = "Errno 5" and w = w_gz_ex]
    by (simp split: prod.splits)
  have h3: "names os_remove_fails_ex (''app.1'' @ ''.tmp'') = Some 0 \<and> 0 < next_ino os_remove_fails_ex
      \<and> fault_at 0 os_remove_fails_ex = None \<and> fault_at 1 os_remove_fails_ex = None
      \<and> fault_at 2 os_remove_fails_ex = None \<and> fault_at 3 os_remove_fails_ex = Some (Errno 5)"
    by (simp add: os_remove_fails_ex_def os_rotated_ex_def fault_at_def)
  have n3: "fault_at 5 os_remove_fails_ex = Some (Errno 13)"
    by (simp add: os_remove_fails_ex_def os_rotated_ex_def fault_at_def)
  have c3: "(case CompressFile gz_ex ''app.1'' os_remove_fails_ex of (err, os') \<Rightarrow>
      err = Some (Errno 13) \<and> names os' ''app.1'' \<noteq> None \<and> names os' ''app.1.tmp'' = Some 0)"
    using h3 n3 CompressFile_outcomes[where os = os_remove_fails_ex and target = "''app.1''" and i = 0
        and gz = gz_ex and e = "Errno 5" and w = w_gz_ex]
    by (simp split: prod.splits)
  have h4: "Compress (cf w_gz_ex) \<and> fst (CompressFile gz_ex ''app.1'' os_rotated_bad_ex) = Some (Errno 5)"
    using c2 by (simp add: w_gz_ex_def ex_defs split: prod.splits)
  have c4: "Reopen_go gz_ex ''app.1'' w_gz_ex os_rotated_bad_ex =
       Some (w_gz_ex, log_Println (Errno 5) (snd (CompressFile gz_ex ''app.1'' os_rotated_bad_ex)))"
    using h4 CompressFile_outcomes[where os = os_rotated_bad_ex and target = "''app.1''" and i = 0
        and gz = gz_ex and e = "Errno 5" and w = w_gz_ex]
    by blast
  from c1 c2 c3 c4 show ?thesis by blast
qed

text \<open>
  C9, as the claim has it (on success the target is the compressed file; on any
  failure the target is deleted; no temporary file remains once the task is done),
  fails. A rotation to \<^verbatim>\<open>app.1\<close> with compression starts the background task; when
  the copy fails the task ends with \<^verbatim>\<open>app.1.tmp\<close> still there. When instead the
  opening of \<^verbatim>\<open>app.1.tmp\<close> fails, the task ends with \<^verbatim>\<open>app.1.tmp\<close> still there and
  the target \<^verbatim>\<open>app.1\<close> left behind, holding an empty gzip stream. When the write of
  the gzip stream at the deferred close fails, \<^verbatim>\<open>CompressFile\<close> returns nil with the
  temporary file removed and the target empty. When the copy and the removal of the
  target both fail, the target stays.
\<close>

theorem CompressFile_leaves_tmp:
  "(case Reopen ''app.1'' w_gz_ex os_copy_fails_ex of
      (err, w1, os1, sp) \<Rightarrow>
        err = None \<and> sp = Some ''app.1'' \<and> names os1 ''app.1.tmp'' = Some 0 \<and>
        (case Reopen_go gz_ex ''app.1'' w1 os1 of
           None \<Rightarrow> False
         | Some (w2, os2) \<Rightarrow>
             names os2 ''app.1.tmp'' = Some 0 \<and> names os2 ''app.1'' = None
             \<and> last (trace os2) = CallLog (Errno 5)))
   \<and> (case Reopen ''app.1'' w_gz_ex os_open_fails_ex of
      (err, w1, os1, sp) \<Rightarrow>
        err = None \<and> sp = Some ''app.1'' \<and>
        (case Reopen_go gz_ex ''app.1'' w1 os1 of
           None \<Rightarrow> False
         | Some (w2, os2) \<Rightarrow>
             names os2 ''app.1.tmp'' = Some 0 \<and> names os2 ''app.1'' = Some 2
             \<and> inodes os2 2 = [31, 139] \<and> last (trace os2) = CallLog (Errno 13)))
   \<and> (case CompressFile gz_ex ''app.1'' os_flush_fails_ex of
      (err, os') \<Rightarrow>
        err = None \<and> names os' ''app.1.tmp'' = None \<and> names os' ''app.1'' = Some 2
        \<and> inodes os' 2 = [])
   \<and> (case CompressFile gz_ex ''app.1'' os_remove_fails_ex of
      (err, os') \<Rightarrow>
        err = Some (Errno 13) \<and> names os' ''app.1.tmp'' = Some 0 \<and> names os' ''app.1'' = Some 2)"
  by (simp add: Reopen_def Reopen_open_def Reopen_go_def CompressFile_def CompressFile_deferred_def
      w_gz_ex_def gz_ex_def os_copy_fails_ex_def os_open_fails_ex_def os_flush_fails_ex_def
      os_remove_fails_ex_def os_rotated_ex_def ex_defs os_defs Let_def)

end
